theory Spec2Isabelle
  imports Main
begin

section \<open>Go library functions used by the plugins\<close>

text \<open>
  Go strings are byte sequences and are modelled as \<open>string\<close> (a list of 8-bit
  characters). \<open>is_ascii\<close> says that every byte of a string is below \<open>0x80\<close>.
\<close>

definition is_ascii :: "string \<Rightarrow> bool" where
  "is_ascii s = list_all (\<lambda>c. \<not> digit7 c) s"

text \<open>
  The conversion \<open>[]rune(s)\<close> decodes \<open>s\<close> as UTF-8, as \<open>utf8.DecodeRuneInString\<close>
  does: a byte below \<open>0x80\<close> is a rune; a leading byte followed by the continuation
  bytes its table entry asks for is a rune of two, three or four bytes; any other byte is
  the rune \<open>U+FFFD\<close>, of width 1. \<open>getifname\<close> does nothing with runes but slice them
  and convert the slices back to strings, so a rune is kept as the bytes of its UTF-8
  encoding: the bytes decoded when they are valid, the three bytes of \<open>U+FFFD\<close>
  otherwise. \<open>first\<close> is the table of the leading bytes: the width and the range the
  second byte must lie in.
\<close>

type_synonym rune = string

definition RuneError :: rune where
  "RuneError = [CHR 0xEF, CHR 0xBF, CHR 0xBD]"

definition byte :: "char \<Rightarrow> nat" where
  "byte c = of_char c"

definition first :: "nat \<Rightarrow> (nat \<times> nat \<times> nat) option" where
  "first b =
     (if 0xC2 \<le> b \<and> b \<le> 0xDF then Some (2, 0x80, 0xBF)
      else if b = 0xE0 then Some (3, 0xA0, 0xBF)
      else if 0xE1 \<le> b \<and> b \<le> 0xEC then Some (3, 0x80, 0xBF)
      else if b = 0xED then Some (3, 0x80, 0x9F)
      else if b = 0xEE \<or> b = 0xEF then Some (3, 0x80, 0xBF)
      else if b = 0xF0 then Some (4, 0x90, 0xBF)
      else if 0xF1 \<le> b \<and> b \<le> 0xF3 then Some (4, 0x80, 0xBF)
      else if b = 0xF4 then Some (4, 0x80, 0x8F)
      else None)"

definition continuation :: "nat \<Rightarrow> bool" where
  "continuation b = (0x80 \<le> b \<and> b \<le> 0xBF)"

definition DecodeRuneInString :: "string \<Rightarrow> rune \<times> nat" where
  "DecodeRuneInString s =
     (case s of
        [] \<Rightarrow> (RuneError, 0)
      | c0 # _ \<Rightarrow>
          if byte c0 < 0x80 then ([c0], 1)
          else
            (case first (byte c0) of
               None \<Rightarrow> (RuneError, 1)
             | Some (sz, lo, hi) \<Rightarrow>
                 if length s < sz then (RuneError, 1)
                 else if byte (s ! 1) < lo \<or> hi < byte (s ! 1) then (RuneError, 1)
                 else if sz \<le> 2 then (take 2 s, 2)
                 else if \<not> continuation (byte (s ! 2)) then (RuneError, 1)
                 else if sz \<le> 3 then (take 3 s, 3)
                 else if \<not> continuation (byte (s ! 3)) then (RuneError, 1)
                 else (take 4 s, 4)))"

function runes_of :: "string \<Rightarrow> rune list" where
  "runes_of s =
     (if s = [] then []
      else (case DecodeRuneInString s of (r, n) \<Rightarrow> r # runes_of (drop n s)))"
  by pat_completeness auto
termination
  by (relation "measure length")
     (auto simp: DecodeRuneInString_def split: list.splits option.splits if_splits)

declare runes_of.simps [simp del]

text \<open>
  \<open>strings.LastIndexAny(s, chars)\<close>: the index of the last byte of \<open>s\<close> that occurs in
  \<open>chars\<close>, or \<open>-1\<close>. The library scans from the last index downwards; \<open>lastIndexFrom\<close>
  is that loop, its third argument the number of bytes still to look at.
\<close>

fun lastIndexFrom :: "string \<Rightarrow> string \<Rightarrow> nat \<Rightarrow> int" where
  "lastIndexFrom s chars 0 = -1"
| "lastIndexFrom s chars (Suc i) =
     (if s ! i \<in> set chars then int i else lastIndexFrom s chars i)"

definition LastIndexAny :: "string \<Rightarrow> string \<Rightarrow> int" where
  "LastIndexAny s chars = lastIndexFrom s chars (length s)"

text \<open>
  \<open>strconv.Atoi\<close> on a 64-bit platform, as a pair of the value and whether \<open>err\<close> is
  non-nil: an optional sign and at least one decimal digit; a syntax error returns 0,
  a value out of range returns the nearest bound together with the error.
\<close>

definition isDigit :: "char \<Rightarrow> bool" where
  "isDigit c = (c \<in> set ''0123456789'')"

definition digitVal :: "char \<Rightarrow> nat" where
  "digitVal c = of_char c - 48"

fun decimal :: "nat \<Rightarrow> string \<Rightarrow> nat" where
  "decimal n [] = n"
| "decimal n (c # cs) = decimal (n * 10 + digitVal c) cs"

definition Atoi :: "string \<Rightarrow> int \<times> bool" where
  "Atoi s =
     (let neg = (s \<noteq> [] \<and> hd s = CHR ''-'');
          body = (if s \<noteq> [] \<and> (hd s = CHR ''-'' \<or> hd s = CHR ''+'') then tl s else s)
      in if body = [] \<or> \<not> list_all isDigit body then (0, True)
         else let n = int (decimal 0 body)
              in if neg then (if n > 2 ^ 63 then (- (2 ^ 63), True) else (- n, False))
                 else (if n \<ge> 2 ^ 63 then (2 ^ 63 - 1, True) else (n, False)))"

text \<open>\<open>fmt.Sprintf("%d", i)\<close>: the decimal digits of \<open>i\<close>, with a minus sign below zero.\<close>

function digits10 :: "nat \<Rightarrow> string" where
  "digits10 n =
     (if n < 10 then [''0123456789'' ! n]
      else digits10 (n div 10) @ [''0123456789'' ! (n mod 10)])"
  by pat_completeness auto
termination
  by (relation "measure id") auto

declare digits10.simps [simp del]

definition Sprintf_d :: "int \<Rightarrow> string" where
  "Sprintf_d i = (if i < 0 then CHR ''-'' # digits10 (nat (- i)) else digits10 (nat i))"

section \<open>multicni: the interface-name allocator\<close>

text \<open>
  \<open>getifname\<close> returns a closure over the three variables \<open>ifname\<close>, \<open>prefix\<close> and
  \<open>ifIdx\<close>; the record holds them, and \<open>podif\<close> is one call of the closure, returning
  its two results and the closure's new state. \<open>ifIdx\<close> is a Go \<open>int\<close>: it is
  incremented once per call, the closure is called once per element of a slice, and a
  slice's length is itself an \<open>int\<close>, so the counter cannot wrap and is modelled as \<open>int\<close>.
  The source assigns \<open>ifIdx = i\<close> under \<open>err != nil\<close>, and that is what the model does.

  \<open>idx\<close> is a byte offset into \<open>ifname\<close>, and the source slices the runes of \<open>ifname\<close>
  at it. \<open>runes[0:idx]\<close> may reach into the capacity of the slice, but \<open>runes[idx:]\<close>
  panics when \<open>idx\<close> exceeds the number of runes, so \<open>getifname\<close> panics exactly then:
  that is its one error, \<open>SliceBoundsPanic\<close>.
\<close>

record ifname_gen =
  ifname :: string
  prefix :: string
  ifIdx :: int

datatype panic = SliceBoundsPanic

definition getifname :: "string \<Rightarrow> panic + ifname_gen" where
  "getifname name =
     (let idx = LastIndexAny name ''0123456789''
      in if idx < 0 then Inr \<lparr>ifname = name, prefix = name, ifIdx = 0\<rparr>
         else let runes = runes_of name
              in if length runes < nat idx then Inl SliceBoundsPanic
                 else let (i, err) = Atoi (concat (drop (nat idx) runes))
                      in Inr \<lparr>ifname = name, prefix = concat (take (nat idx) runes),
                              ifIdx = (if err then i else 0)\<rparr>)"

definition podif :: "ifname_gen \<Rightarrow> (string \<times> bool) \<times> ifname_gen" where
  "podif g =
     (if ifIdx g = 0 then ((ifname g, True), g\<lparr>ifIdx := ifIdx g + 1\<rparr>)
      else ((prefix g @ Sprintf_d (ifIdx g), False), g\<lparr>ifIdx := ifIdx g + 1\<rparr>))"

text \<open>\<open>produce n g\<close>: the results of \<open>n\<close> successive calls of the closure.\<close>

fun produce :: "nat \<Rightarrow> ifname_gen \<Rightarrow> (string \<times> bool) list" where
  "produce 0 g = []"
| "produce (Suc n) g = (case podif g of (r, g') \<Rightarrow> r # produce n g')"

section \<open>multicni: configuration and collaborators\<close>

text \<open>
  A plugin entry is a \<open>map[string]interface{}\<close> decoded from JSON: \<open>jvalue\<close> is what
  \<open>encoding/json\<close> stores in an \<open>interface{}\<close>, and the map is kept as the list of its
  members, read with \<open>map_of\<close>. A key that is absent and a key bound to JSON \<open>null\<close>
  both read as \<open>nil\<close>.
\<close>

datatype jvalue =
    JNull
  | JBool bool
  | JNumber string
  | JString string
  | JArray "jvalue list"
  | JObject "(string \<times> jvalue) list"

type_synonym plugin = "(string \<times> jvalue) list"

record multicni_NetConf =
  Kubeconfig :: string
  Default :: string
  Plugins :: "plugin list"

record CmdArgs =
  ContainerID :: string
  Netns :: string
  IfName :: string
  Args :: string
  Path :: string
  StdinData :: string

datatype error =
    FailedToLoadNetconf string
  | DefaultFieldMissing
  | NoPluginsList
  | ErrLoadingNetconf error
  | MustHaveType
  | MustHaveName
  | ErrPluginConf error
  | ErrPodAnnotation string
  | ErrSerializing string
  | ErrSetenv
  | ErrDelegateAdd string string
  | ErrDelegateDel string string
  | FailedToFindPlugin string
  | FailedToGetPodArgs string
  | ParsePodNetworkObject string
  | External string
  | TypeAssertionPanic
  | Panicked panic
  | SpecifyDevice
  | FailedToOpenNetns string string
  | FailedToFindHostDevice error
  | FailedToMoveLink error
  | FailedToListLinks string
  | FailedToFindPhysicalInterface
  | FailedHostDown string string
  | FailedToFind string string
  | FailedSetAlias string string
  | FailedRename string string string
  | FailedContainerDown string string
  | FailedRestoreName string string string
  | FailedMoveToHost string string
  | MissingIPConfig

text \<open>
  What the dispatcher does to the outside: each delegate invocation, with the value of
  \<open>CNI_IFNAME\<close> the delegate finds in the process environment, the plugin type, the
  serialized configuration and the outcome; and each result document printed.
\<close>

datatype event =
    EvDelegateAdd string string string "string + string"
  | EvDelegateDel string string string "string option"
  | EvPrint string

text \<open>
  The collaborators outside the repository, as functions the model is given:
  \<open>encoding/json\<close>, the Kubernetes client, \<open>types.LoadArgs\<close> (its two fields
  \<open>K8S_POD_NAMESPACE\<close> and \<open>K8S_POD_NAME\<close>), the delegate invocations of
  \<open>cni/pkg/invoke\<close> and \<open>Result.Print\<close>. \<open>Inl\<close> (or \<open>Some\<close> where only an error is
  returned) carries the error text. A delegate is another process: its outcome may depend
  on everything done before, so it is given the events so far.
\<close>

record multicni_env =
  json_Unmarshal_NetConf :: "string \<Rightarrow> string + multicni_NetConf"
  json_Unmarshal_strings :: "string \<Rightarrow> string + string list"
  json_Marshal :: "plugin \<Rightarrow> string + string"
  BuildClient :: "string \<Rightarrow> string + unit"
  types_LoadArgs :: "string \<Rightarrow> string + string \<times> string"
  Pods_Get :: "string \<Rightarrow> string \<Rightarrow> string + (string \<rightharpoonup> string)"
  invoke_DelegateAdd :: "event list \<Rightarrow> string \<Rightarrow> string \<Rightarrow> string \<Rightarrow> string + string"
  invoke_DelegateDel :: "event list \<Rightarrow> string \<Rightarrow> string \<Rightarrow> string \<Rightarrow> string option"
  Result_Print :: "event list \<Rightarrow> string \<Rightarrow> string option"

text \<open>
  The state of one invocation of the dispatcher: the closure \<open>podifName\<close>, the
  environment variable \<open>CNI_IFNAME\<close> and the events so far.
\<close>

record proc =
  podifName :: ifname_gen
  CNI_IFNAME :: string
  events :: "event list"

definition isString :: "jvalue option \<Rightarrow> bool" where
  "isString i = (case i of Some (JString _) \<Rightarrow> True | _ \<Rightarrow> False)"

definition isNil :: "jvalue option \<Rightarrow> bool" where
  "isNil i = (case i of None \<Rightarrow> True | Some JNull \<Rightarrow> True | _ \<Rightarrow> False)"

definition loadNetConf :: "multicni_env \<Rightarrow> string \<Rightarrow> error + multicni_NetConf" where
  "loadNetConf env bytes =
     (case json_Unmarshal_NetConf env bytes of
        Inl err \<Rightarrow> Inl (FailedToLoadNetconf err)
      | Inr netconf \<Rightarrow>
          if Default netconf = [] then Inl DefaultFieldMissing
          else if length (Plugins netconf) = 0 then Inl NoPluginsList
          else Inr netconf)"

definition checkPlugin :: "plugin \<Rightarrow> error option" where
  "checkPlugin netconf =
     (if isNil (map_of netconf ''type'') \<or> \<not> isString (map_of netconf ''type'')
      then Some MustHaveType
      else if isNil (map_of netconf ''name'') \<or> \<not> isString (map_of netconf ''name'')
      then Some MustHaveName
      else None)"

text \<open>
  \<open>os.Setenv\<close> refuses a value that contains a NUL byte (the key is the constant
  \<open>CNI_IFNAME\<close>); otherwise it sets the variable.
\<close>

definition os_Setenv_fails :: "string \<Rightarrow> bool" where
  "os_Setenv_fails v = (CHR 0x00 \<in> set v)"

definition delegateAdd :: "multicni_env \<Rightarrow> plugin \<Rightarrow> proc \<Rightarrow> error option \<times> proc" where
  "delegateAdd env netconf st =
     (case json_Marshal env netconf of
        Inl err \<Rightarrow> (Some (ErrSerializing err), st)
      | Inr netconfBytes \<Rightarrow>
          (case podif (podifName st) of
             ((iface, isDefault), g) \<Rightarrow>
               if os_Setenv_fails iface then (Some ErrSetenv, st\<lparr>podifName := g\<rparr>)
               else
                 (let st1 = st\<lparr>podifName := g, CNI_IFNAME := iface\<rparr>
                  in case map_of netconf ''type'' of
                       Some (JString ty) \<Rightarrow>
                         (let r = invoke_DelegateAdd env (events st1) (CNI_IFNAME st1) ty netconfBytes;
                              st2 = st1\<lparr>events := events st1 @
                                      [EvDelegateAdd (CNI_IFNAME st1) ty netconfBytes r]\<rparr>
                          in case r of
                               Inl err \<Rightarrow> (Some (ErrDelegateAdd ty err), st2)
                             | Inr result \<Rightarrow>
                                 if isDefault then
                                   (case Result_Print env (events st2) result of
                                      Some err \<Rightarrow> (Some (External err), st2)
                                    | None \<Rightarrow>
                                        (None, st2\<lparr>events := events st2 @ [EvPrint result]\<rparr>))
                                 else (None, st2))
                     | _ \<Rightarrow> (Some TypeAssertionPanic, st1))))"

definition delegateDel :: "multicni_env \<Rightarrow> plugin \<Rightarrow> proc \<Rightarrow> error option \<times> proc" where
  "delegateDel env netconf st =
     (case json_Marshal env netconf of
        Inl err \<Rightarrow> (Some (ErrSerializing err), st)
      | Inr netconfBytes \<Rightarrow>
          (case podif (podifName st) of
             ((iface, _), g) \<Rightarrow>
               if os_Setenv_fails iface then (Some ErrSetenv, st\<lparr>podifName := g\<rparr>)
               else
                 (let st1 = st\<lparr>podifName := g, CNI_IFNAME := iface\<rparr>
                  in case map_of netconf ''type'' of
                       Some (JString ty) \<Rightarrow>
                         (let r = invoke_DelegateDel env (events st1) (CNI_IFNAME st1) ty netconfBytes;
                              st2 = st1\<lparr>events := events st1 @
                                      [EvDelegateDel (CNI_IFNAME st1) ty netconfBytes r]\<rparr>
                          in case r of
                               Some err \<Rightarrow> (Some (ErrDelegateDel ty err), st2)
                             | None \<Rightarrow> (None, st2))
                     | _ \<Rightarrow> (Some TypeAssertionPanic, st1))))"

definition loadArgs :: "multicni_env \<Rightarrow> string \<Rightarrow> error + string \<times> string" where
  "loadArgs env args =
     (case types_LoadArgs env args of
        Inl err \<Rightarrow> Inl (External err)
      | Inr (K8S_POD_NAMESPACE, K8S_POD_NAME) \<Rightarrow>
          if K8S_POD_NAMESPACE = [] \<or> K8S_POD_NAME = [] then Inl (FailedToGetPodArgs args)
          else Inr (K8S_POD_NAMESPACE, K8S_POD_NAME))"

definition createK8sClient :: "multicni_env \<Rightarrow> string \<Rightarrow> error + unit" where
  "createK8sClient env kubeconfig =
     (case BuildClient env kubeconfig of Inl err \<Rightarrow> Inl (External err) | Inr c \<Rightarrow> Inr c)"

definition getK8sPodAnnotations ::
  "multicni_env \<Rightarrow> unit \<Rightarrow> CmdArgs \<Rightarrow> error + (string \<rightharpoonup> string)" where
  "getK8sPodAnnotations env client args =
     (case loadArgs env (Args args) of
        Inl err \<Rightarrow> Inl err
      | Inr (K8S_POD_NAMESPACE, K8S_POD_NAME) \<Rightarrow>
          (case Pods_Get env K8S_POD_NAMESPACE K8S_POD_NAME of
             Inl err \<Rightarrow> Inl (External err)
           | Inr annotations \<Rightarrow> Inr annotations))"

definition parsePodNetworkObject :: "multicni_env \<Rightarrow> string \<Rightarrow> error + string list" where
  "parsePodNetworkObject env podnetwork =
     (case json_Unmarshal_strings env podnetwork of
        Inl err \<Rightarrow> Inl (ParsePodNetworkObject err)
      | Inr podNet \<Rightarrow> Inr podNet)"

section \<open>multicni: the dispatcher\<close>

text \<open>
  \<open>cmdAdd\<close> and \<open>cmdDel\<close> are the same text but for the delegate function they call,
  so their loops are written once, over that function \<open>d\<close>. \<open>checkPlugins\<close> is the
  loop over \<open>conf.Plugins\<close> that returns at the first entry \<open>checkPlugin\<close> refuses.
  A command does not return from a panic: the process dies with it, whatever it has done
  so far. \<open>Panicked\<close> (and \<open>TypeAssertionPanic\<close>) stand for that end among the errors.
\<close>

fun checkPlugins :: "plugin list \<Rightarrow> error option" where
  "checkPlugins [] = None"
| "checkPlugins (plugin # ps) =
     (case checkPlugin plugin of
        Some err \<Rightarrow> Some (ErrPluginConf err)
      | None \<Rightarrow> checkPlugins ps)"

text \<open>
  The lookup of the pod's plugin list: \<open>podPlugins\<close> stays \<open>nil\<close> when the client cannot
  be created, when the annotations cannot be fetched and when the annotation
  \<open>cni-plugins\<close> is absent or empty; a non-empty annotation that does not parse makes
  the command return.
\<close>

definition getPodPlugins ::
  "multicni_env \<Rightarrow> CmdArgs \<Rightarrow> multicni_NetConf \<Rightarrow> error + string list" where
  "getPodPlugins env args conf =
     (case createK8sClient env (Kubeconfig conf) of
        Inl _ \<Rightarrow> Inr []
      | Inr kubeClient \<Rightarrow>
          (case getK8sPodAnnotations env kubeClient args of
             Inl _ \<Rightarrow> Inr []
           | Inr annot \<Rightarrow>
               (let plugins = (case annot ''cni-plugins'' of None \<Rightarrow> [] | Some v \<Rightarrow> v)
                in if plugins \<noteq> [] then
                     (case parsePodNetworkObject env plugins of
                        Inl _ \<Rightarrow> Inl (ErrPodAnnotation plugins)
                      | Inr podPlugins \<Rightarrow> Inr podPlugins)
                   else Inr [])))"

text \<open>
  The inner loop under the label \<open>NextPlugin\<close>: the first entry of \<open>conf.Plugins\<close> whose
  \<open>name\<close> is the string \<open>podPlugin\<close> is delegated to; when there is none the command
  returns \<open>failed to find plugin\<close>.
\<close>

fun findAndDelegate ::
  "(plugin \<Rightarrow> proc \<Rightarrow> error option \<times> proc) \<Rightarrow> string \<Rightarrow> plugin list \<Rightarrow> proc
   \<Rightarrow> error option \<times> proc" where
  "findAndDelegate d podPlugin [] st = (Some (FailedToFindPlugin podPlugin), st)"
| "findAndDelegate d podPlugin (plugin # ps) st =
     (if map_of plugin ''name'' = Some (JString podPlugin) then d plugin st
      else findAndDelegate d podPlugin ps st)"

fun podPluginsLoop ::
  "(plugin \<Rightarrow> proc \<Rightarrow> error option \<times> proc) \<Rightarrow> plugin list \<Rightarrow> string list \<Rightarrow> proc
   \<Rightarrow> error option \<times> proc" where
  "podPluginsLoop d plugins [] st = (None, st)"
| "podPluginsLoop d plugins (podPlugin # rest) st =
     (case findAndDelegate d podPlugin plugins st of
        (Some err, st') \<Rightarrow> (Some err, st')
      | (None, st') \<Rightarrow> podPluginsLoop d plugins rest st')"

text \<open>The loop of the \<open>else\<close> branch: delegate to the first entry named \<open>conf.Default\<close>, then \<open>break\<close>.\<close>

fun defaultLoop ::
  "(plugin \<Rightarrow> proc \<Rightarrow> error option \<times> proc) \<Rightarrow> string \<Rightarrow> plugin list \<Rightarrow> proc
   \<Rightarrow> error option \<times> proc" where
  "defaultLoop d dflt [] st = (None, st)"
| "defaultLoop d dflt (plugin # ps) st =
     (if map_of plugin ''name'' = Some (JString dflt) then d plugin st
      else defaultLoop d dflt ps st)"

definition dispatch ::
  "(plugin \<Rightarrow> proc \<Rightarrow> error option \<times> proc) \<Rightarrow> multicni_env \<Rightarrow> CmdArgs
   \<Rightarrow> error option \<times> event list" where
  "dispatch d env args =
     (case loadNetConf env (StdinData args) of
        Inl err \<Rightarrow> (Some (ErrLoadingNetconf err), [])
      | Inr conf \<Rightarrow>
          (case checkPlugins (Plugins conf) of
             Some err \<Rightarrow> (Some err, [])
           | None \<Rightarrow>
               (case getPodPlugins env args conf of
                  Inl err \<Rightarrow> (Some err, [])
                | Inr podPlugins \<Rightarrow>
                    (case getifname (IfName args) of
                       Inl p \<Rightarrow> (Some (Panicked p), [])
                     | Inr g \<Rightarrow>
                         (let st = \<lparr>podifName = g,
                                    CNI_IFNAME = IfName args, events = []\<rparr>;
                              (err, st') =
                                (if length podPlugins > 0
                                 then podPluginsLoop d (Plugins conf) podPlugins st
                                 else defaultLoop d (Default conf) (Plugins conf) st)
                          in (err, events st'))))))"

definition multicni_cmdAdd :: "multicni_env \<Rightarrow> CmdArgs \<Rightarrow> error option \<times> event list" where
  "multicni_cmdAdd env args = dispatch (delegateAdd env) env args"

definition multicni_cmdDel :: "multicni_env \<Rightarrow> CmdArgs \<Rightarrow> error option \<times> event list" where
  "multicni_cmdDel env args = dispatch (delegateDel env) env args"

section \<open>multicni: the selection, as a plan\<close>

text \<open>
  The dispatcher never builds its plan as a value: it resolves a name and delegates at
  once. The definitions of this section state the selection on its own, so that the
  dispatcher can be compared with "select, then run the plan in order". \<open>resolve\<close> is
  the first static entry of that name; \<open>resolveAll\<close> resolves the names in order up to
  the first that has no entry, which it returns as well; \<open>run_plan\<close> delegates to the
  entries in order and stops at the first error.
\<close>

definition resolve :: "plugin list \<Rightarrow> string \<Rightarrow> plugin option" where
  "resolve plugins n = List.find (\<lambda>plugin. map_of plugin ''name'' = Some (JString n)) plugins"

fun resolveAll :: "plugin list \<Rightarrow> string list \<Rightarrow> plugin list \<times> string option" where
  "resolveAll plugins [] = ([], None)"
| "resolveAll plugins (n # ns) =
     (case resolve plugins n of
        None \<Rightarrow> ([], Some n)
      | Some p \<Rightarrow> (case resolveAll plugins ns of (ps, u) \<Rightarrow> (p # ps, u)))"

definition spec_selection :: "multicni_NetConf \<Rightarrow> string list \<Rightarrow> plugin list \<times> string option" where
  "spec_selection conf names =
     (if names \<noteq> [] then resolveAll (Plugins conf) names
      else (case resolve (Plugins conf) (Default conf) of
              None \<Rightarrow> ([], None)
            | Some p \<Rightarrow> ([p], None)))"

fun run_plan ::
  "(plugin \<Rightarrow> proc \<Rightarrow> error option \<times> proc) \<Rightarrow> plugin list \<Rightarrow> proc \<Rightarrow> error option \<times> proc" where
  "run_plan d [] st = (None, st)"
| "run_plan d (p # ps) st =
     (case d p st of
        (Some err, st') \<Rightarrow> (Some err, st')
      | (None, st') \<Rightarrow> run_plan d ps st')"

definition run_selection ::
  "(plugin \<Rightarrow> proc \<Rightarrow> error option \<times> proc) \<Rightarrow> plugin list \<times> string option \<Rightarrow> proc
   \<Rightarrow> error option \<times> event list" where
  "run_selection d sel st =
     (case sel of
        (ps, u) \<Rightarrow>
          (case run_plan d ps st of
             (Some err, st') \<Rightarrow> (Some err, events st')
           | (None, st') \<Rightarrow>
               (case u of
                  None \<Rightarrow> (None, events st')
                | Some n \<Rightarrow> (Some (FailedToFindPlugin n), events st'))))"

definition start :: "CmdArgs \<Rightarrow> ifname_gen \<Rightarrow> proc" where
  "start args g = \<lparr>podifName = g, CNI_IFNAME = IfName args, events = []\<rparr>"

text \<open>
  Reading a trace: the delegate invocations of \<open>Add\<close> as triples of interface name,
  plugin type and configuration, the documents printed, and the triple an entry is
  invoked with under a given name.
\<close>

fun adds :: "event list \<Rightarrow> (string \<times> string \<times> string) list" where
  "adds [] = []"
| "adds (EvDelegateAdd i ty b out # es) = (i, ty, b) # adds es"
| "adds (e # es) = adds es"

fun prints :: "event list \<Rightarrow> string list" where
  "prints [] = []"
| "prints (EvPrint r # es) = r # prints es"
| "prints (e # es) = prints es"

definition the_type :: "plugin \<Rightarrow> string" where
  "the_type p = (case map_of p ''type'' of Some (JString ty) \<Rightarrow> ty | _ \<Rightarrow> [])"

definition the_bytes :: "multicni_env \<Rightarrow> plugin \<Rightarrow> string" where
  "the_bytes env p = (case json_Marshal env p of Inr b \<Rightarrow> b | Inl _ \<Rightarrow> [])"

definition call :: "multicni_env \<Rightarrow> plugin \<Rightarrow> string \<times> bool \<Rightarrow> string \<times> string \<times> string" where
  "call env p a = (fst a, the_type p, the_bytes env p)"

section \<open>host-device: links, namespaces and the kernel\<close>

text \<open>
  A network interface as \<open>netlink\<close> reports it (\<open>Attrs()\<close>), together with the network
  namespace it lives in. \<open>Index\<close> identifies the interface within its namespace. A
  value of this type is also the handle a \<open>netlink.Link\<close> is: the attributes as they
  were when it was fetched.
\<close>

record link =
  Index :: nat
  Name :: string
  Alias :: string
  HardwareAddr :: string
  Up :: bool
  NetNs :: nat

text \<open>
  The calls that change something or leave the process, in the order they are made.
  Namespaces are numbers; a \<open>ns.NetNS\<close> handle and its file descriptor are that number.
\<close>

datatype call =
    CGetNS string
  | CGetCurrentNS
  | CDo nat
  | CLinkSetDown nat
  | CLinkSetNsFd nat nat
  | CLinkSetAlias nat string
  | CLinkSetName nat string
  | CExecAdd string string
  | CExecDel string string
  | CConfigureIface string
  | CPrint string

record world =
  links :: "link list"
  curNs :: nat
  calls :: "call list"

record hostdev_NetConf =
  Devices :: "string list"
  HWAddrs :: "string list"
  KernelPaths :: "string list"
  IPAM_Type :: string
  DNS :: string
  CNIVersion :: string

record hd_result =
  Interfaces :: "(string \<times> string \<times> string) list"
  IPs :: "string list"
  ResultDNS :: string

text \<open>
  What the plugin is given from outside: the JSON decoder, the namespace a path names
  (\<open>ns.GetNS\<close>), \<open>net.ParseMAC\<close>, \<open>filepath.Join\<close> and the names \<open>ioutil.ReadDir\<close>
  lists, the IPAM delegate (its outcome may depend on the calls made before) and the
  conversions of its result. \<open>fault\<close> is every failure the environment can add to a
  call (no permission, device busy, a closed handle): the error text, for the call about
  to be made after the given ones.
\<close>

record hostdev_env =
  json_Unmarshal_conf :: "string \<Rightarrow> string + hostdev_NetConf"
  netns_at :: "string \<rightharpoonup> nat"
  fault :: "call list \<Rightarrow> call \<Rightarrow> string option"
  linklist_fault :: "string option"
  net_ParseMAC :: "string \<Rightarrow> string + string"
  filepath_Join :: "string \<Rightarrow> string \<Rightarrow> string"
  ioutil_ReadDir :: "string \<Rightarrow> string + string list"
  ipam_ExecAdd :: "call list \<Rightarrow> string \<Rightarrow> string \<Rightarrow> string + string"
  ipam_ExecDel :: "call list \<Rightarrow> string \<Rightarrow> string \<Rightarrow> string option"
  NewResultFromResult :: "string \<Rightarrow> string + hd_result"
  GetAsVersion :: "hd_result \<Rightarrow> string \<Rightarrow> string + string"

definition logged :: "call \<Rightarrow> world \<Rightarrow> world" where
  "logged c w = w\<lparr>calls := calls w @ [c]\<rparr>"

text \<open>
  The \<open>netlink\<close> library is not part of the repository; its calls are modelled after the
  kernel. Every call acts in the namespace of the calling thread. \<open>LinkList\<close> and
  \<open>LinkByName\<close> read: the interfaces of that namespace, and the one of a given name
  (an error when there is none).
\<close>

definition here :: "world \<Rightarrow> link list" where
  "here w = filter (\<lambda>l. NetNs l = curNs w) (links w)"

definition netlink_LinkList :: "hostdev_env \<Rightarrow> world \<Rightarrow> string + link list" where
  "netlink_LinkList env w =
     (case linklist_fault env of Some err \<Rightarrow> Inl err | None \<Rightarrow> Inr (here w))"

definition netlink_LinkByName :: "string \<Rightarrow> world \<Rightarrow> string + link" where
  "netlink_LinkByName n w =
     (case List.find (\<lambda>l. Name l = n) (here w) of
        None \<Rightarrow> Inl ''Link not found''
      | Some l \<Rightarrow> Inr l)"

text \<open>
  The calls that change an interface address it by the index of the handle, log
  themselves, and fail when the environment says so or when the namespace of the thread
  has no interface of that index.
\<close>

definition setlink ::
  "hostdev_env \<Rightarrow> call \<Rightarrow> nat \<Rightarrow> (link \<Rightarrow> link) \<Rightarrow> world \<Rightarrow> string option \<times> world" where
  "setlink env c idx f w =
     (case fault env (calls w) c of
        Some err \<Rightarrow> (Some err, logged c w)
      | None \<Rightarrow>
          if \<not> list_ex (\<lambda>l. Index l = idx) (here w) then (Some ''no such device'', logged c w)
          else (None, logged c
                  (w\<lparr>links := map (\<lambda>l. if Index l = idx \<and> NetNs l = curNs w then f l else l)
                                 (links w)\<rparr>)))"

definition netlink_LinkSetDown :: "hostdev_env \<Rightarrow> link \<Rightarrow> world \<Rightarrow> string option \<times> world" where
  "netlink_LinkSetDown env l w =
     setlink env (CLinkSetDown (Index l)) (Index l) (\<lambda>x. x\<lparr>Up := False\<rparr>) w"

definition netlink_LinkSetAlias ::
  "hostdev_env \<Rightarrow> link \<Rightarrow> string \<Rightarrow> world \<Rightarrow> string option \<times> world" where
  "netlink_LinkSetAlias env l a w =
     setlink env (CLinkSetAlias (Index l) a) (Index l) (\<lambda>x. x\<lparr>Alias := a\<rparr>) w"

text \<open>
  The kernel's \<open>dev_valid_name\<close>: an interface name is not empty, shorter than 16 bytes,
  neither \<open>.\<close> nor \<open>..\<close>, and free of \<open>/\<close>, \<open>:\<close> and white space. A rename to a name
  that is not valid, or that another interface of the namespace bears, is refused. The
  library sends the name as the attribute \<open>IFLA_IFNAME\<close>, which the kernel validates
  first: an empty one, or one longer than 15 bytes, is out of range (\<open>ERANGE\<close>) before
  the name is looked at.
\<close>

definition isspace :: "char \<Rightarrow> bool" where
  "isspace c = (c \<in> set [CHR '' '', CHR 0x09, CHR 0x0A, CHR 0x0B, CHR 0x0C, CHR 0x0D])"

definition dev_valid_name :: "string \<Rightarrow> bool" where
  "dev_valid_name n =
     (n \<noteq> [] \<and> length n < 16 \<and> n \<noteq> ''.'' \<and> n \<noteq> ''..'' \<and>
      list_all (\<lambda>c. c \<noteq> CHR ''/'' \<and> c \<noteq> CHR '':'' \<and> \<not> isspace c) n)"

definition netlink_LinkSetName ::
  "hostdev_env \<Rightarrow> link \<Rightarrow> string \<Rightarrow> world \<Rightarrow> string option \<times> world" where
  "netlink_LinkSetName env l n w =
     (if n = [] \<or> 15 < length n
      then (Some ''numerical result out of range'', logged (CLinkSetName (Index l) n) w)
      else if \<not> dev_valid_name n
      then (Some ''invalid argument'', logged (CLinkSetName (Index l) n) w)
      else if list_ex (\<lambda>x. Name x = n \<and> Index x \<noteq> Index l) (here w)
      then (Some ''file exists'', logged (CLinkSetName (Index l) n) w)
      else setlink env (CLinkSetName (Index l) n) (Index l) (\<lambda>x. x\<lparr>Name := n\<rparr>) w)"

text \<open>
  Moving an interface to the namespace it is in changes nothing; moving it to another
  one is refused when an interface there bears one of the names moved. The interface
  keeps its index unless an interface of the target namespace bears it; then it is given
  an index that is free there (\<open>new_index\<close>).
\<close>

definition new_index :: "nat \<Rightarrow> nat \<Rightarrow> world \<Rightarrow> nat" where
  "new_index idx fd w =
     (if fd \<noteq> curNs w \<and> list_ex (\<lambda>x. NetNs x = fd \<and> Index x = idx) (links w)
      then Suc (fold max (map Index (filter (\<lambda>x. NetNs x = fd) (links w))) 0)
      else idx)"

definition netlink_LinkSetNsFd ::
  "hostdev_env \<Rightarrow> link \<Rightarrow> nat \<Rightarrow> world \<Rightarrow> string option \<times> world" where
  "netlink_LinkSetNsFd env l fd w =
     (if fd \<noteq> curNs w \<and>
         list_ex (\<lambda>x. NetNs x = fd \<and>
                      list_ex (\<lambda>y. Index y = Index l \<and> Name y = Name x) (here w)) (links w)
      then (Some ''file exists'', logged (CLinkSetNsFd (Index l) fd) w)
      else setlink env (CLinkSetNsFd (Index l) fd) (Index l)
             (\<lambda>x. x\<lparr>NetNs := fd, Index := new_index (Index l) fd w\<rparr>) w)"

text \<open>
  Modelled from the spec: the package \<open>pkg/ns\<close> of the repository, whose source is not
  among the files. A \<open>ContainerNamespace\<close> is "addressed by a filesystem path" and
  "supports a scoped run code with this namespace active operation that always restores
  the caller's original namespace on exit"; the namespace context "is a property of the
  OS thread". So \<open>ns_GetNS\<close> opens the namespace at a path, \<open>ns_GetCurrentNS\<close> is the
  namespace of the thread at the moment of the call, and \<open>ns_Do\<close> runs its argument
  with the thread in the target namespace and puts the thread back on every exit path.
\<close>

definition ns_GetNS :: "hostdev_env \<Rightarrow> string \<Rightarrow> world \<Rightarrow> (string + nat) \<times> world" where
  "ns_GetNS env path w =
     (case fault env (calls w) (CGetNS path) of
        Some err \<Rightarrow> (Inl err, logged (CGetNS path) w)
      | None \<Rightarrow>
          (case netns_at env path of
             None \<Rightarrow> (Inl ''unknown FS magic'', logged (CGetNS path) w)
           | Some n \<Rightarrow> (Inr n, logged (CGetNS path) w)))"

definition ns_GetCurrentNS :: "hostdev_env \<Rightarrow> world \<Rightarrow> (string + nat) \<times> world" where
  "ns_GetCurrentNS env w =
     (case fault env (calls w) CGetCurrentNS of
        Some err \<Rightarrow> (Inl err, logged CGetCurrentNS w)
      | None \<Rightarrow> (Inr (curNs w), logged CGetCurrentNS w))"

definition ns_Do ::
  "hostdev_env \<Rightarrow> nat \<Rightarrow> (world \<Rightarrow> (error + 'a) \<times> world) \<Rightarrow> world \<Rightarrow> (error + 'a) \<times> world" where
  "ns_Do env target toRun w =
     (case fault env (calls w) (CDo target) of
        Some err \<Rightarrow> (Inl (External err), logged (CDo target) w)
      | None \<Rightarrow>
          (case toRun ((logged (CDo target) w)\<lparr>curNs := target\<rparr>) of
             (r, w') \<Rightarrow> (r, w'\<lparr>curNs := curNs w\<rparr>)))"

text \<open>
  Modelled from the spec: \<open>ipam.ConfigureIface\<close> of the package \<open>pkg/ipam\<close> of the
  repository, whose source is not among the files: "applying the address to the
  interface". It finds the interface by name in the namespace of the thread and brings
  it up; the addresses themselves are not part of the model.
\<close>

definition ipam_ConfigureIface ::
  "hostdev_env \<Rightarrow> string \<Rightarrow> hd_result \<Rightarrow> world \<Rightarrow> (error + unit) \<times> world" where
  "ipam_ConfigureIface env n result w =
     (case netlink_LinkByName n w of
        Inl err \<Rightarrow> (Inl (External err), logged (CConfigureIface n) w)
      | Inr l \<Rightarrow>
          (case setlink env (CConfigureIface n) (Index l) (\<lambda>x. x\<lparr>Up := True\<rparr>) w of
             (Some err, w') \<Rightarrow> (Inl (External err), w')
           | (None, w') \<Rightarrow> (Inr (), w')))"

section \<open>host-device: the plugin\<close>

definition loadConf :: "hostdev_env \<Rightarrow> string \<Rightarrow> error + hostdev_NetConf" where
  "loadConf env bytes =
     (case json_Unmarshal_conf env bytes of
        Inl err \<Rightarrow> Inl (FailedToLoadNetconf err)
      | Inr n \<Rightarrow>
          if length (Devices n) = 0 \<and> length (HWAddrs n) = 0 \<and> length (KernelPaths n) = 0
          then Inl SpecifyDevice
          else Inr n)"

text \<open>
  \<open>getLink\<close> is three loops with early returns. \<open>byDevice\<close> is the loop over the device
  names; \<open>byHWAddr\<close> the loop over the hardware addresses, \<open>scanHWAddr\<close> its inner loop
  over the listed links; \<open>byKernelPath\<close> the loop over the kernel paths, \<open>scanFiles\<close>
  and \<open>scanName\<close> its two inner loops. Each returns the link at which the source
  returns, or nothing when the loop runs to its end.
\<close>

fun byDevice :: "string list \<Rightarrow> world \<Rightarrow> link option" where
  "byDevice [] w = None"
| "byDevice (device # ds) w =
     (case netlink_LinkByName device w of
        Inr l \<Rightarrow> Some l
      | Inl _ \<Rightarrow> byDevice ds w)"

fun scanHWAddr :: "string \<Rightarrow> link list \<Rightarrow> link option" where
  "scanHWAddr hwAddr [] = None"
| "scanHWAddr hwAddr (l # ls) =
     (if HardwareAddr l = hwAddr then Some l else scanHWAddr hwAddr ls)"

fun byHWAddr :: "hostdev_env \<Rightarrow> link list \<Rightarrow> string list \<Rightarrow> link option" where
  "byHWAddr env ls [] = None"
| "byHWAddr env ls (hwaddr # hs) =
     (case net_ParseMAC env hwaddr of
        Inl _ \<Rightarrow> byHWAddr env ls hs
      | Inr hwAddr \<Rightarrow>
          (case scanHWAddr hwAddr ls of
             Some l \<Rightarrow> Some l
           | None \<Rightarrow> byHWAddr env ls hs))"

fun scanName :: "string \<Rightarrow> link list \<Rightarrow> link option" where
  "scanName file [] = None"
| "scanName file (l # ls) = (if file = Name l then Some l else scanName file ls)"

fun scanFiles :: "string list \<Rightarrow> link list \<Rightarrow> link option" where
  "scanFiles [] ls = None"
| "scanFiles (file # fs) ls =
     (case scanName file ls of
        Some l \<Rightarrow> Some l
      | None \<Rightarrow> scanFiles fs ls)"

definition IsAbs :: "string \<Rightarrow> bool" where
  "IsAbs path = (take 1 path = ''/'')"

definition HasPrefix :: "string \<Rightarrow> string \<Rightarrow> bool" where
  "HasPrefix s p = (length s \<ge> length p \<and> take (length p) s = p)"

fun byKernelPath :: "hostdev_env \<Rightarrow> link list \<Rightarrow> string list \<Rightarrow> link option" where
  "byKernelPath env ls [] = None"
| "byKernelPath env ls (kernelpath # ks) =
     (if \<not> IsAbs kernelpath \<or> \<not> HasPrefix kernelpath ''/sys/devices/''
      then byKernelPath env ls ks
      else
        (let netDir = filepath_Join env kernelpath ''net''
         in case ioutil_ReadDir env netDir of
              Inl _ \<Rightarrow> byKernelPath env ls ks
            | Inr files \<Rightarrow>
                (case scanFiles files ls of
                   Some l \<Rightarrow> Some l
                 | None \<Rightarrow> byKernelPath env ls ks)))"

definition getLink ::
  "hostdev_env \<Rightarrow> string list \<Rightarrow> string list \<Rightarrow> string list \<Rightarrow> world \<Rightarrow> error + link" where
  "getLink env devices hwaddrs kernelpaths w =
     (case netlink_LinkList env w of
        Inl err \<Rightarrow> Inl (FailedToListLinks err)
      | Inr ls \<Rightarrow>
          (case byDevice devices w of
             Some l \<Rightarrow> Inr l
           | None \<Rightarrow>
               (case byHWAddr env ls hwaddrs of
                  Some l \<Rightarrow> Inr l
                | None \<Rightarrow>
                    (case byKernelPath env ls kernelpaths of
                       Some l \<Rightarrow> Inr l
                     | None \<Rightarrow> Inl FailedToFindPhysicalInterface))))"

text \<open>
  \<open>moveLinkIn_func\<close> and \<open>moveLinkOut_func\<close> are the function literals that
  \<open>moveLinkIn\<close> and \<open>moveLinkOut\<close> pass to \<open>containerNs.Do\<close>; the first leaves its
  link in the variable \<open>contDev\<close> of the enclosing function, which is its result here.
\<close>

definition moveLinkIn_func ::
  "hostdev_env \<Rightarrow> link \<Rightarrow> string \<Rightarrow> world \<Rightarrow> (error + link) \<times> world" where
  "moveLinkIn_func env hostDev ifName v =
     (case netlink_LinkByName (Name hostDev) v of
        Inl err \<Rightarrow> (Inl (FailedToFind (Name hostDev) err), v)
      | Inr contDev \<Rightarrow>
          (case netlink_LinkSetAlias env contDev (Name hostDev) v of
             (Some err, v1) \<Rightarrow> (Inl (FailedSetAlias (Name hostDev) err), v1)
           | (None, v1) \<Rightarrow>
               (case netlink_LinkSetName env contDev ifName v1 of
                  (Some err, v2) \<Rightarrow> (Inl (FailedRename (Name hostDev) ifName err), v2)
                | (None, v2) \<Rightarrow>
                    (case netlink_LinkByName ifName v2 of
                       Inl err \<Rightarrow> (Inl (FailedToFind ifName err), v2)
                     | Inr contDev' \<Rightarrow> (Inr contDev', v2)))))"

definition moveLinkIn ::
  "hostdev_env \<Rightarrow> link \<Rightarrow> nat \<Rightarrow> string \<Rightarrow> world \<Rightarrow> (error + link) \<times> world" where
  "moveLinkIn env hostDev containerNs ifName w =
     (case netlink_LinkSetDown env hostDev w of
        (Some err, w1) \<Rightarrow> (Inl (FailedHostDown ifName err), w1)
      | (None, w1) \<Rightarrow>
          (case netlink_LinkSetNsFd env hostDev containerNs w1 of
             (Some err, w2) \<Rightarrow> (Inl (External err), w2)
           | (None, w2) \<Rightarrow> ns_Do env containerNs (moveLinkIn_func env hostDev ifName) w2))"

definition moveLinkOut_func ::
  "hostdev_env \<Rightarrow> string \<Rightarrow> nat \<Rightarrow> world \<Rightarrow> (error + unit) \<times> world" where
  "moveLinkOut_func env ifName defaultNs v =
     (case netlink_LinkByName ifName v of
        Inl err \<Rightarrow> (Inl (FailedToFind ifName err), v)
      | Inr dev \<Rightarrow>
          (case netlink_LinkSetDown env dev v of
             (Some err, v1) \<Rightarrow> (Inl (FailedContainerDown ifName err), v1)
           | (None, v1) \<Rightarrow>
               (case netlink_LinkSetName env dev (Alias dev) v1 of
                  (Some err, v2) \<Rightarrow> (Inl (FailedRestoreName ifName (Alias dev) err), v2)
                | (None, v2) \<Rightarrow>
                    (case netlink_LinkSetNsFd env dev defaultNs v2 of
                       (Some err, v3) \<Rightarrow> (Inl (FailedMoveToHost (Alias dev) err), v3)
                     | (None, v3) \<Rightarrow> (Inr (), v3)))))"

definition moveLinkOut ::
  "hostdev_env \<Rightarrow> nat \<Rightarrow> string \<Rightarrow> world \<Rightarrow> (error + unit) \<times> world" where
  "moveLinkOut env containerNs ifName w =
     (case ns_GetCurrentNS env w of
        (Inl err, w1) \<Rightarrow> (Inl (External err), w1)
      | (Inr defaultNs, w1) \<Rightarrow>
          ns_Do env containerNs (moveLinkOut_func env ifName defaultNs) w1)"

text \<open>
  \<open>cmdAdd\<close> after \<open>moveLinkIn\<close> has succeeded, up to its \<open>return\<close>. Besides the value
  returned, the deferred functions need two facts: the value of the variable \<open>err\<close> at
  the \<open>return\<close> (every \<open>:=\<close> of the function body assigns the one variable declared by
  the first; \<open>return errors.New(...)\<close> and \<open>return newResult.Print()\<close> do not assign it),
  and whether the function that calls \<open>ipam.ExecDel\<close> had been deferred by then. The
  hardware address is kept as bytes, and the index given to each address is not part of
  the model.
\<close>

definition cmdAdd_body ::
  "hostdev_env \<Rightarrow> CmdArgs \<Rightarrow> hostdev_NetConf \<Rightarrow> nat \<Rightarrow> link \<Rightarrow> world
   \<Rightarrow> ((error + unit) \<times> error option \<times> bool) \<times> world" where
  "cmdAdd_body env args cfg containerNs contDev w =
     (let w1 = logged (CExecAdd (IPAM_Type cfg) (StdinData args)) w
      in case ipam_ExecAdd env (calls w) (IPAM_Type cfg) (StdinData args) of
           Inl err \<Rightarrow> ((Inl (External err), Some (External err), False), w1)
         | Inr r \<Rightarrow>
             (case NewResultFromResult env r of
                Inl err \<Rightarrow> ((Inl (External err), Some (External err), True), w1)
              | Inr result \<Rightarrow>
                  if length (IPs result) = 0 then ((Inl MissingIPConfig, None, True), w1)
                  else
                    (let result1 = result\<lparr>Interfaces :=
                                     [(IfName args, HardwareAddr contDev, Netns args)]\<rparr>
                     in case ns_Do env containerNs
                               (ipam_ConfigureIface env (IfName args) result1) w1 of
                          (Inl err, w2) \<Rightarrow> ((Inl err, Some err, True), w2)
                        | (Inr _, w2) \<Rightarrow>
                            (let result2 = result1\<lparr>ResultDNS := DNS cfg\<rparr>
                             in case GetAsVersion env result2 (CNIVersion cfg) of
                                  Inl err \<Rightarrow> ((Inl (External err), Some (External err), True), w2)
                                | Inr newResult \<Rightarrow>
                                    (case fault env (calls w2) (CPrint newResult) of
                                       Some err \<Rightarrow>
                                         ((Inl (External err), None, True),
                                          logged (CPrint newResult) w2)
                                     | None \<Rightarrow>
                                         ((Inr (), None, True),
                                          logged (CPrint newResult) w2))))))"

text \<open>
  The deferred functions run after the \<open>return\<close>, last deferred first: the release of
  the address, then the function of lines 109 to 115, which calls \<open>moveLinkOut\<close> inside
  \<open>containerNs.Do\<close>; both only when \<open>err\<close> is not \<open>nil\<close>, and both drop the error of
  what they call.
\<close>

definition hostdev_cmdAdd :: "hostdev_env \<Rightarrow> CmdArgs \<Rightarrow> world \<Rightarrow> (error + unit) \<times> world" where
  "hostdev_cmdAdd env args w =
     (case loadConf env (StdinData args) of
        Inl err \<Rightarrow> (Inl err, w)
      | Inr cfg \<Rightarrow>
          (case ns_GetNS env (Netns args) w of
             (Inl err, w1) \<Rightarrow> (Inl (FailedToOpenNetns (Netns args) err), w1)
           | (Inr containerNs, w1) \<Rightarrow>
               (case getLink env (Devices cfg) (HWAddrs cfg) (KernelPaths cfg) w1 of
                  Inl err \<Rightarrow> (Inl (FailedToFindHostDevice err), w1)
                | Inr hostDev \<Rightarrow>
                    (case moveLinkIn env hostDev containerNs (IfName args) w1 of
                       (Inl err, w2) \<Rightarrow> (Inl (FailedToMoveLink err), w2)
                     | (Inr contDev, w2) \<Rightarrow>
                         (case cmdAdd_body env args cfg containerNs contDev w2 of
                            ((ret, err, ipamDeferred), w3) \<Rightarrow>
                              (let w4 = (if ipamDeferred \<and> err \<noteq> None
                                         then logged (CExecDel (IPAM_Type cfg) (StdinData args)) w3
                                         else w3);
                                   w5 = (if err \<noteq> None
                                         then snd (ns_Do env containerNs
                                                (moveLinkOut env containerNs (IfName args)) w4)
                                         else w4)
                               in (ret, w5)))))))"

definition hostdev_cmdDel :: "hostdev_env \<Rightarrow> CmdArgs \<Rightarrow> world \<Rightarrow> (error + unit) \<times> world" where
  "hostdev_cmdDel env args w =
     (case loadConf env (StdinData args) of
        Inl err \<Rightarrow> (Inl err, w)
      | Inr cfg \<Rightarrow>
          (let w1 = logged (CExecDel (IPAM_Type cfg) (StdinData args)) w
           in case ipam_ExecDel env (calls w) (IPAM_Type cfg) (StdinData args) of
                Some err \<Rightarrow> (Inl (External err), w1)
              | None \<Rightarrow>
                  (case ns_GetNS env (Netns args) w1 of
                     (Inl err, w2) \<Rightarrow> (Inl (FailedToOpenNetns (Netns args) err), w2)
                   | (Inr containerNs, w2) \<Rightarrow> moveLinkOut env containerNs (IfName args) w2)))"

text \<open>The outcome of the delegate invocation that \<open>delegateAdd\<close> makes from a state.\<close>

definition outcome :: "multicni_env \<Rightarrow> plugin \<Rightarrow> proc \<Rightarrow> string + string" where
  "outcome env p st =
     invoke_DelegateAdd env (events st) (fst (fst (podif (podifName st))))
       (the_type p) (the_bytes env p)"

section \<open>multicni: a configuration to run the dispatcher on\<close>

text \<open>
  Three static entries \<open>A\<close>, \<open>B\<close> and \<open>C\<close>, a default name, and collaborators that
  answer: the pod lookup fails or returns the annotation \<open>cni-plugins\<close> with a given
  text, the decoder accepts two plugin lists, every delegate succeeds and returns a
  document that names its type and the interface it was given.
\<close>

definition ex_pA :: plugin where
  "ex_pA = [(''name'', JString ''A''), (''type'', JString ''bridge'')]"

definition ex_pB :: plugin where
  "ex_pB = [(''name'', JString ''B''), (''type'', JString ''macvlan'')]"

definition ex_pC :: plugin where
  "ex_pC = [(''name'', JString ''C''), (''type'', JString ''host-device'')]"

definition ex_conf :: "string \<Rightarrow> multicni_NetConf" where
  "ex_conf dflt = \<lparr>Kubeconfig = ''/etc/kubeconfig'', Default = dflt, Plugins = [ex_pA, ex_pB, ex_pC]\<rparr>"

definition ann_CA :: string where
  \<open>ann_CA = ''["C","A"]''\<close>

definition ann_CZ :: string where
  \<open>ann_CZ = ''["C","Z"]''\<close>

definition ex_env :: "string \<Rightarrow> string + string \<Rightarrow> multicni_env" where
  \<open>ex_env dflt ann =
     \<lparr>json_Unmarshal_NetConf = (\<lambda>_. Inr (ex_conf dflt)),
      json_Unmarshal_strings =
        (\<lambda>s. if s = ann_CA then Inr [''C'', ''A'']
             else if s = ann_CZ then Inr [''C'', ''Z'']
             else Inl ''invalid character''),
      json_Marshal =
        (\<lambda>p. case map_of p ''name'' of
                Some (JString n) \<Rightarrow> Inr (''conf '' @ n)
              | _ \<Rightarrow> Inr ''conf''),
      BuildClient = (\<lambda>_. Inr ()),
      types_LoadArgs = (\<lambda>_. Inr (''default'', ''pod-1'')),
      Pods_Get =
        (\<lambda>_ _. case ann of Inl e \<Rightarrow> Inl e | Inr v \<Rightarrow> Inr [''cni-plugins'' \<mapsto> v]),
      invoke_DelegateAdd = (\<lambda>_ i ty _. Inr (ty @ '' on '' @ i)),
      invoke_DelegateDel = (\<lambda>_ _ _ _. None),
      Result_Print = (\<lambda>_ _. None)\<rparr>\<close>

definition ex_args :: CmdArgs where
  "ex_args = \<lparr>ContainerID = ''c1'', Netns = ''/var/run/netns/c1'', IfName = ''eth0'',
              Args = ''K8S_POD_NAMESPACE=default;K8S_POD_NAME=pod-1'', Path = ''/opt/cni/bin'',
              StdinData = ''{}''\<rparr>"

text \<open>The allocator of the name \<open>eth0\<close>, before its first call.\<close>

definition ex_gen :: ifname_gen where
  "ex_gen = \<lparr>ifname = ''eth0'', prefix = ''eth'', ifIdx = 0\<rparr>"

text \<open>
  The same arguments with an interface name that is not ASCII: two times \<open>U+00E9\<close>
  (bytes \<open>c3 a9\<close>) and the digit \<open>1\<close>, five bytes and three runes.
\<close>

definition ex_args_utf8 :: CmdArgs where
  "ex_args_utf8 = ex_args\<lparr>IfName := [CHR 0xC3, CHR 0xA9, CHR 0xC3, CHR 0xA9, CHR ''1'']\<rparr>"

section \<open>host-device: the matches of the selectors\<close>

text \<open>
  What each category of selectors matches, stated on its own (the loops of \<open>getLink\<close>
  do not build these lists): the links the device names denote, in the order of the
  names; for each hardware address that parses, the listed links that bear it; for each
  kernel path that is absolute, under \<open>/sys/devices/\<close> and whose \<open>net\<close> directory
  can be read, the listed links named as one of its files.
\<close>

definition name_matches :: "world \<Rightarrow> string list \<Rightarrow> link list" where
  "name_matches w devices =
     concat (map (\<lambda>device. case netlink_LinkByName device w of
                              Inr l \<Rightarrow> [l]
                            | Inl _ \<Rightarrow> []) devices)"

definition hwaddr_matches :: "hostdev_env \<Rightarrow> link list \<Rightarrow> string list \<Rightarrow> link list" where
  "hwaddr_matches env ls hwaddrs =
     concat (map (\<lambda>hwaddr. case net_ParseMAC env hwaddr of
                              Inl _ \<Rightarrow> []
                            | Inr hwAddr \<Rightarrow> filter (\<lambda>l. HardwareAddr l = hwAddr) ls) hwaddrs)"

definition kernelpath_matches :: "hostdev_env \<Rightarrow> link list \<Rightarrow> string list \<Rightarrow> link list" where
  "kernelpath_matches env ls kernelpaths =
     concat (map (\<lambda>kernelpath.
                    if IsAbs kernelpath \<and> HasPrefix kernelpath ''/sys/devices/''
                    then (case ioutil_ReadDir env (filepath_Join env kernelpath ''net'') of
                            Inl _ \<Rightarrow> []
                          | Inr files \<Rightarrow>
                              concat (map (\<lambda>file. filter (\<lambda>l. Name l = file) ls) files))
                    else []) kernelpaths)"

definition first_of :: "'a list \<Rightarrow> 'a option" where
  "first_of ms = (case ms of [] \<Rightarrow> None | l # _ \<Rightarrow> Some l)"

definition first_match :: "link list \<Rightarrow> error + link" where
  "first_match ms = (case ms of [] \<Rightarrow> Inl FailedToFindPhysicalInterface | l # _ \<Rightarrow> Inr l)"

section \<open>host-device: a host to run the plugin on\<close>

text \<open>
  A host namespace 0 with a loopback and three interfaces: \<open>eth1\<close>, one that bears the
  hardware address \<open>02:00:00:00:00:02\<close> and one that the kernel lists under a PCI
  device; and a container namespace 1, at the path the arguments give, with its own
  loopback. The IPAM delegate answers \<open>ExecAdd\<close> and \<open>ExecDel\<close> as the two parameters
  say; the result \<open>empty\<close> converts to a result without addresses.
\<close>

definition ex_lo :: link where
  "ex_lo = \<lparr>Index = 1, Name = ''lo'', Alias = [], HardwareAddr = [], Up = True, NetNs = 0\<rparr>"

definition ex_eth1 :: link where
  "ex_eth1 = \<lparr>Index = 2, Name = ''eth1'', Alias = [],
              HardwareAddr = [CHR 0x02, CHR 0x00, CHR 0x00, CHR 0x00, CHR 0x00, CHR 0x01],
              Up = True, NetNs = 0\<rparr>"

definition ex_eth2 :: link where
  "ex_eth2 = \<lparr>Index = 3, Name = ''eth2'', Alias = [],
              HardwareAddr = [CHR 0x02, CHR 0x00, CHR 0x00, CHR 0x00, CHR 0x00, CHR 0x02],
              Up = True, NetNs = 0\<rparr>"

definition ex_enp :: link where
  "ex_enp = \<lparr>Index = 4, Name = ''enp0s25'', Alias = [],
             HardwareAddr = [CHR 0x02, CHR 0x00, CHR 0x00, CHR 0x00, CHR 0x00, CHR 0x03],
             Up = True, NetNs = 0\<rparr>"

definition ex_lo_c :: link where
  "ex_lo_c = \<lparr>Index = 1, Name = ''lo'', Alias = [], HardwareAddr = [], Up = True, NetNs = 1\<rparr>"

definition ex_world :: world where
  "ex_world = \<lparr>links = [ex_lo, ex_eth1, ex_eth2, ex_enp, ex_lo_c], curNs = 0, calls = []\<rparr>"

definition ex_hcfg :: hostdev_NetConf where
  "ex_hcfg = \<lparr>Devices = [''eth1''], HWAddrs = [''02:00:00:00:00:02''],
              KernelPaths = [''/sys/devices/pci0000:00/0000:00:19.0''],
              IPAM_Type = ''vdn-dhcp'', DNS = [], CNIVersion = ''0.3.1''\<rparr>"

definition ex_henv :: "string + string \<Rightarrow> string option \<Rightarrow> hostdev_env" where
  "ex_henv add del =
     \<lparr>json_Unmarshal_conf = (\<lambda>_. Inr ex_hcfg),
      netns_at = [''/var/run/netns/c1'' \<mapsto> 1],
      fault = (\<lambda>_ _. None),
      linklist_fault = None,
      net_ParseMAC =
        (\<lambda>s. if s = ''02:00:00:00:00:02''
             then Inr [CHR 0x02, CHR 0x00, CHR 0x00, CHR 0x00, CHR 0x00, CHR 0x02]
             else Inl ''invalid MAC address''),
      filepath_Join = (\<lambda>a b. a @ ''/'' @ b),
      ioutil_ReadDir =
        (\<lambda>d. if d = ''/sys/devices/pci0000:00/0000:00:19.0/net'' then Inr [''enp0s25'']
             else Inl ''no such file or directory''),
      ipam_ExecAdd = (\<lambda>_ _ _. add),
      ipam_ExecDel = (\<lambda>_ _ _. del),
      NewResultFromResult =
        (\<lambda>r. Inr \<lparr>Interfaces = [], IPs = (if r = ''empty'' then [] else [r]), ResultDNS = []\<rparr>),
      GetAsVersion = (\<lambda>_ v. Inr (''result '' @ v))\<rparr>"

text \<open>The same host after an attach whose alias was lost: \<open>eth0\<close> in the container, no alias.\<close>

definition ex_world_noalias :: world where
  "ex_world_noalias =
     \<lparr>links = [ex_lo, ex_eth1\<lparr>Name := ''eth0'', Up := True, NetNs := 1\<rparr>, ex_lo_c],
      curNs = 0, calls = []\<rparr>"

text \<open>The same host after a successful attach of \<open>eth1\<close> as \<open>eth0\<close>.\<close>

definition ex_world_attached :: world where
  "ex_world_attached =
     \<lparr>links = [ex_lo, ex_eth1\<lparr>Name := ''eth0'', Alias := ''eth1'', Up := True, NetNs := 1\<rparr>,
               ex_eth2, ex_enp, ex_lo_c],
      curNs = 0, calls = []\<rparr>"

section \<open>Properties\<close>

subsection \<open>The interface-name allocator\<close>

lemma lastIndexFrom_cases:
  "n \<le> length s \<Longrightarrow>
   (lastIndexFrom s chars n = -1 \<and> (\<forall>j<n. s ! j \<notin> set chars)) \<or>
   (\<exists>i<n. lastIndexFrom s chars n = int i \<and> s ! i \<in> set chars \<and>
           (\<forall>j. i < j \<and> j < n \<longrightarrow> s ! j \<notin> set chars))"
proof (induction n)
  case 0
  then show ?case by simp
next
  case (Suc n)
  show ?case
  proof (cases "s ! n \<in> set chars")
    case True
    then show ?thesis by auto
  next
    case False
    from Suc have "n \<le> length s" by simp
    from Suc.IH [OF this] False show ?thesis
      by (auto simp: less_Suc_eq)
  qed
qed

text \<open>
  Decoding keeps the digits of a string: a digit is a rune of its own, and neither the
  bytes of a longer rune nor those of \<open>U+FFFD\<close> are digits. A rune takes at least one
  byte, so the runes from the \<open>k\<close>-th on lie within the bytes from the \<open>k\<close>-th on.
\<close>

lemma first_size: "first b = Some (sz, lo, hi) \<Longrightarrow> sz = 2 \<or> sz = 3 \<or> sz = 4"
  by (auto simp: first_def split: if_splits)

lemma isDigit_byte: "isDigit c \<Longrightarrow> byte c < 0x80"
  by (auto simp: isDigit_def byte_def)

lemma filter_isDigit_RuneError: "filter isDigit RuneError = []"
  by (simp add: RuneError_def isDigit_def)

lemma DecodeRuneInString_width:
  assumes "s \<noteq> []" "DecodeRuneInString s = (r, n)"
  shows "0 < n \<and> n \<le> length s"
  using assms
  by (auto simp: DecodeRuneInString_def Suc_le_eq
           split: list.splits option.splits if_splits dest!: first_size)

lemma DecodeRuneInString_digits:
  assumes "s \<noteq> []" "DecodeRuneInString s = (r, n)"
  shows "filter isDigit r = filter isDigit (take n s)"
proof (cases s)
  case Nil
  with assms show ?thesis by simp
next
  case (Cons c cs)
  show ?thesis
  proof (cases "byte c < 0x80")
    case True
    with assms Cons show ?thesis by (auto simp: DecodeRuneInString_def)
  next
    case False
    then have nd: "\<not> isDigit c" using isDigit_byte by auto
    from assms Cons False
    consider "r = RuneError" "n = 1" | "r = take n s"
      by (auto simp: DecodeRuneInString_def split: option.splits if_splits)
    then show ?thesis
    proof cases
      case 1
      then show ?thesis using nd Cons by (simp add: filter_isDigit_RuneError)
    next
      case 2
      then show ?thesis by simp
    qed
  qed
qed

lemma runes_of_digits: "filter isDigit (concat (runes_of s)) = filter isDigit s"
proof (induction s rule: runes_of.induct)
  case (1 s)
  show ?case
  proof (cases "s = []")
    case True
    then show ?thesis by (simp add: runes_of.simps)
  next
    case False
    obtain r n where d: "DecodeRuneInString s = (r, n)" by (cases "DecodeRuneInString s")
    from 1 [OF False d [symmetric]]
    have ih: "filter isDigit (concat (runes_of (drop n s))) = filter isDigit (drop n s)" .
    have "filter isDigit (concat (runes_of s)) =
            filter isDigit r @ filter isDigit (concat (runes_of (drop n s)))"
      using False d by (subst runes_of.simps) simp
    also have "\<dots> = filter isDigit (take n s) @ filter isDigit (drop n s)"
      using ih DecodeRuneInString_digits [OF False d] by simp
    also have "\<dots> = filter isDigit s"
      by (simp flip: filter_append)
    finally show ?thesis .
  qed
qed

lemma filter_drop_mono:
  assumes "k \<le> m"
  shows "length (filter P (drop m s)) \<le> length (filter P (drop k s))"
proof -
  from assms have "drop k s = take (m - k) (drop k s) @ drop m s"
    by (metis append_take_drop_id drop_drop le_add_diff_inverse2)
  then have "filter P (drop k s) = filter P (take (m - k) (drop k s)) @ filter P (drop m s)"
    by (metis filter_append)
  then show ?thesis by simp
qed

lemma runes_of_drop_digits:
  "length (filter isDigit (concat (drop k (runes_of s)))) \<le> length (filter isDigit (drop k s))"
proof (induction s arbitrary: k rule: runes_of.induct)
  case (1 s)
  show ?case
  proof (cases "s = []")
    case True
    then show ?thesis by (simp add: runes_of.simps)
  next
    case False
    obtain r n where d: "DecodeRuneInString s = (r, n)" by (cases "DecodeRuneInString s")
    have rs: "runes_of s = r # runes_of (drop n s)"
      using False d by (subst runes_of.simps) simp
    show ?thesis
    proof (cases k)
      case 0
      then show ?thesis using runes_of_digits [of s] by simp
    next
      case (Suc j)
      from 1 [OF False d [symmetric], of j]
      have "length (filter isDigit (concat (drop j (runes_of (drop n s))))) \<le>
            length (filter isDigit (drop (j + n) s))"
        by (simp add: add.commute)
      also have "\<dots> \<le> length (filter isDigit (drop k s))"
        using DecodeRuneInString_width [OF False d] Suc
        by (intro filter_drop_mono) simp
      finally show ?thesis using rs Suc by simp
    qed
  qed
qed

text \<open>
  On a string with at most one digit, \<open>Atoi\<close> either succeeds or reports a syntax
  error together with the value 0.
\<close>

lemma Atoi_few_digits:
  assumes "length (filter isDigit t) \<le> 1" and "Atoi t = (i, True)"
  shows "i = 0"
proof -
  let ?body = "if t \<noteq> [] \<and> (hd t = CHR ''-'' \<or> hd t = CHR ''+'') then tl t else t"
  show ?thesis
  proof (cases "?body = [] \<or> \<not> list_all isDigit ?body")
    case True
    then show ?thesis using assms(2) by (auto simp: Atoi_def Let_def split: if_splits)
  next
    case False
    then have b: "?body \<noteq> []" "list_all isDigit ?body" by auto
    have "length (filter isDigit ?body) \<le> length (filter isDigit t)"
      by (cases t) auto
    moreover have "filter isDigit ?body = ?body" using b(2) by (simp add: list_all_iff)
    ultimately have "length ?body \<le> 1" using assms(1) by simp
    with b obtain c where c: "?body = [c]" "isDigit c"
      by (cases ?body) auto
    then have "decimal 0 ?body = digitVal c" by simp
    moreover have "digitVal c < 10" using c(2) by (auto simp: isDigit_def digitVal_def)
    ultimately show ?thesis using assms(2) b
      by (auto simp: Atoi_def Let_def split: if_splits)
  qed
qed

text \<open>
  The source slices at the last digit of the name, after which the name has no digit:
  the string it hands to \<open>Atoi\<close> has at most one digit, and the test \<open>err != nil\<close>
  leaves \<open>ifIdx\<close> at 0 whenever \<open>getifname\<close> returns.
\<close>

lemma getifname_ifIdx:
  assumes "getifname name = Inr g"
  shows "ifIdx g = 0"
proof -
  let ?cs = "''0123456789''"
  from lastIndexFrom_cases [of "length name" name ?cs]
  consider (none) "LastIndexAny name ?cs = -1"
    | (some) i where "i < length name" "LastIndexAny name ?cs = int i" "name ! i \<in> set ?cs"
        "\<forall>j. i < j \<and> j < length name \<longrightarrow> name ! j \<notin> set ?cs"
    unfolding LastIndexAny_def by blast
  then show ?thesis
  proof cases
    case none
    then show ?thesis using assms by (auto simp: getifname_def)
  next
    case some
    have dr: "drop i name = name ! i # drop (Suc i) name"
      using some(1) by (simp add: Cons_nth_drop_Suc)
    have r: "\<forall>c\<in>set (drop (Suc i) name). \<not> isDigit c"
    proof
      fix c assume "c \<in> set (drop (Suc i) name)"
      then obtain k where "k < length name - Suc i" "c = name ! (Suc i + k)"
        by (auto simp: in_set_conv_nth)
      then show "\<not> isDigit c" using some(4) by (auto simp: isDigit_def)
    qed
    then have "filter isDigit (drop (Suc i) name) = []" by (simp add: filter_empty_conv)
    then have "length (filter isDigit (drop i name)) \<le> 1" using dr by simp
    with runes_of_drop_digits [of i name]
    have few: "length (filter isDigit (concat (drop i (runes_of name)))) \<le> 1" by simp
    obtain v e where ve: "Atoi (concat (drop i (runes_of name))) = (v, e)"
      by (cases "Atoi (concat (drop i (runes_of name)))")
    have "e \<Longrightarrow> v = 0" using Atoi_few_digits [OF few, of v] ve by simp
    then show ?thesis using some(2) ve assms
      by (auto simp: getifname_def Let_def split: if_splits)
  qed
qed

lemma getifname_ifname: "getifname name = Inr g \<Longrightarrow> ifname g = name"
  by (auto simp: getifname_def Let_def split: prod.splits if_splits)

text \<open>
  An ASCII name has one rune per byte, byte and rune offsets coincide, and \<open>getifname\<close>
  returns.
\<close>

lemma runes_of_ascii: "is_ascii s \<Longrightarrow> runes_of s = map (\<lambda>c. [c]) s"
proof (induction s)
  case Nil
  then show ?case by (simp add: runes_of.simps)
next
  case (Cons c cs)
  then have "byte c < 0x80" by (cases c) (simp add: is_ascii_def byte_def)
  then have "DecodeRuneInString (c # cs) = ([c], 1)" by (simp add: DecodeRuneInString_def)
  then show ?case using Cons by (subst runes_of.simps) (simp add: is_ascii_def)
qed

lemma LastIndexAny_le: "LastIndexAny s chars \<le> int (length s)"
  using lastIndexFrom_cases [of "length s" s chars] by (auto simp: LastIndexAny_def)

lemma getifname_ascii: "is_ascii name \<Longrightarrow> \<exists>g. getifname name = Inr g"
  using LastIndexAny_le [of name "''0123456789''"]
  by (auto simp: getifname_def Let_def runes_of_ascii split: prod.splits)

lemma produce_from:
  "1 \<le> ifIdx g \<Longrightarrow>
   produce n g = map (\<lambda>j. (prefix g @ Sprintf_d (ifIdx g + int j), False)) [0..<n]"
proof (induction n arbitrary: g)
  case 0
  then show ?case by simp
next
  case (Suc n)
  let ?g = "g\<lparr>ifIdx := ifIdx g + 1\<rparr>"
  have p: "podif g = ((prefix g @ Sprintf_d (ifIdx g), False), ?g)"
    using Suc.prems by (simp add: podif_def)
  have "1 \<le> ifIdx ?g" using Suc.prems by simp
  from Suc.IH [OF this]
  have "produce n ?g = map (\<lambda>j. (prefix g @ Sprintf_d (ifIdx g + 1 + int j), False)) [0..<n]"
    by simp
  also have "\<dots> = map (\<lambda>j. (prefix g @ Sprintf_d (ifIdx g + int j), False)) (map Suc [0..<n])"
    by (simp add: ac_simps)
  finally show ?case using p
    by (simp add: upt_conv_Cons map_Suc_upt del: upt_Suc)
qed

lemma produce_fresh:
  "ifIdx g = 0 \<Longrightarrow>
   produce (Suc n) g =
     (ifname g, True) # map (\<lambda>j. (prefix g @ Sprintf_d (1 + int j), False)) [0..<n]"
  using produce_from [of "g\<lparr>ifIdx := 1\<rparr>" n]
  by (simp add: podif_def)

lemma ex_getifname: "getifname (IfName ex_args) = Inr ex_gen"
  by code_simp

text \<open>
  C2. On the base name \<open>eth0\<close>, the allocator is built without a panic and three
  successive calls of it return \<open>eth0\<close>, \<open>eth1\<close> and \<open>eth2\<close> in that order, only the
  first marked primary. The state of the closure is the value \<open>getifname\<close> returns and
  nothing else, so a fresh allocator built from \<open>eth0\<close> gives the same sequence again,
  whatever the number of calls: the base name, then \<open>eth\<close> followed by 1, 2, 3 and so on.
\<close>

theorem getifname_eth0_sequence:
  "\<exists>g. getifname ''eth0'' = Inr g \<and>
       produce 3 g = [(''eth0'', True), (''eth1'', False), (''eth2'', False)] \<and>
       (\<forall>n. produce (Suc n) g =
              (''eth0'', True) # map (\<lambda>j. (''eth'' @ Sprintf_d (1 + int j), False)) [0..<n])"
proof -
  let ?g = "\<lparr>ifname = ''eth0'', prefix = ''eth'', ifIdx = 0\<rparr>"
  have 1: "getifname ''eth0'' = Inr ?g"
    by code_simp
  have 2: "produce 3 ?g = [(''eth0'', True), (''eth1'', False), (''eth2'', False)]"
    by code_simp
  have 3: "produce (Suc n) ?g =
             (''eth0'', True) # map (\<lambda>j. (''eth'' @ Sprintf_d (1 + int j), False)) [0..<n]" for n
    using produce_fresh [of ?g n] by simp
  show ?thesis using 1 2 3 by blast
qed

text \<open>
  C3. The claim is that the name is split into a prefix without digits and its trailing
  number, also when that number has several digits, and that every later call returns
  that prefix followed by an incrementing integer. The source splits at the last digit
  (\<open>strings.LastIndexAny\<close>), not at the first digit of the trailing number: on \<open>eth10\<close>
  the prefix is \<open>eth1\<close>, the tenth later call returns \<open>eth110\<close> after \<open>eth19\<close>.
\<close>

theorem getifname_eth10_splits_at_last_digit:
  "\<exists>g. getifname ''eth10'' = Inr g \<and> prefix g = ''eth1'' \<and>
       produce 11 g =
         [(''eth10'', True), (''eth11'', False), (''eth12'', False), (''eth13'', False),
          (''eth14'', False), (''eth15'', False), (''eth16'', False), (''eth17'', False),
          (''eth18'', False), (''eth19'', False), (''eth110'', False)]"
proof -
  let ?g = "\<lparr>ifname = ''eth10'', prefix = ''eth1'', ifIdx = 0\<rparr>"
  have 1: "getifname ''eth10'' = Inr ?g"
    by code_simp
  have 2: "produce 11 ?g =
         [(''eth10'', True), (''eth11'', False), (''eth12'', False), (''eth13'', False),
          (''eth14'', False), (''eth15'', False), (''eth16'', False), (''eth17'', False),
          (''eth18'', False), (''eth19'', False), (''eth110'', False)]"
    by code_simp
  show ?thesis using 1 2 by (intro exI [of _ ?g]) simp
qed

subsection \<open>The dispatcher and its plan\<close>

lemma findAndDelegate_resolve:
  "findAndDelegate d n plugins st =
     (case resolve plugins n of None \<Rightarrow> (Some (FailedToFindPlugin n), st) | Some p \<Rightarrow> d p st)"
  by (induction plugins) (simp_all add: resolve_def)

lemma defaultLoop_resolve:
  "defaultLoop d dflt plugins st =
     (case resolve plugins dflt of None \<Rightarrow> (None, st) | Some p \<Rightarrow> d p st)"
  by (induction plugins) (simp_all add: resolve_def)

lemma podPluginsLoop_plan:
  "podPluginsLoop d plugins names st =
     (case resolveAll plugins names of
        (ps, u) \<Rightarrow>
          (case run_plan d ps st of
             (Some err, st') \<Rightarrow> (Some err, st')
           | (None, st') \<Rightarrow>
               (case u of None \<Rightarrow> (None, st') | Some n \<Rightarrow> (Some (FailedToFindPlugin n), st'))))"
proof (induction names arbitrary: st)
  case Nil
  then show ?case by simp
next
  case (Cons n ns)
  show ?case
  proof (cases "resolve plugins n")
    case None
    then show ?thesis by (simp add: findAndDelegate_resolve)
  next
    case (Some p)
    obtain e st1 where d: "d p st = (e, st1)" by (cases "d p st")
    show ?thesis
    proof (cases e)
      case None
      then show ?thesis using Some d Cons.IH [of st1]
        by (simp add: findAndDelegate_resolve split: prod.splits)
    next
      case (Some err)
      then show ?thesis using \<open>resolve plugins n = Some p\<close> d
        by (simp add: findAndDelegate_resolve split: prod.splits)
    qed
  qed
qed

text \<open>
  A command is the selection run from the fresh allocator, when \<open>getifname\<close> returns
  one; when \<open>getifname\<close> panics, the command ends there, before any delegate is invoked.
\<close>

lemma dispatch_run_selection:
  assumes "loadNetConf env (StdinData args) = Inr conf"
    and "checkPlugins (Plugins conf) = None"
    and "getPodPlugins env args conf = Inr names"
  shows "dispatch d env args =
           (case getifname (IfName args) of
              Inl p \<Rightarrow> (Some (Panicked p), [])
            | Inr g \<Rightarrow> run_selection d (spec_selection conf names) (start args g))"
proof (cases "names = []")
  case True
  then show ?thesis using assms
    by (simp add: dispatch_def run_selection_def spec_selection_def start_def
        defaultLoop_resolve split: option.splits prod.splits sum.splits)
next
  case False
  then show ?thesis using assms
    by (simp add: dispatch_def run_selection_def spec_selection_def start_def
        podPluginsLoop_plan split: option.splits prod.splits sum.splits)
qed

lemma adds_append [simp]: "adds (xs @ ys) = adds xs @ adds ys"
  by (induction xs rule: adds.induct) simp_all

lemma prints_append [simp]: "prints (xs @ ys) = prints xs @ prints ys"
  by (induction xs rule: prints.induct) simp_all

text \<open>What one call of \<open>delegateAdd\<close> adds to the trace.\<close>

lemma delegateAdd_step:
  assumes "delegateAdd env p st = (err, st')"
  shows "(err \<noteq> None \<and> events st' = events st) \<or>
         (podifName st' = snd (podif (podifName st)) \<and>
          events st' = events st @
             [EvDelegateAdd (fst (fst (podif (podifName st)))) (the_type p) (the_bytes env p)
                (outcome env p st)] @
             (if err = None \<and> ifIdx (podifName st) = 0
              then [EvPrint (case outcome env p st of Inr r \<Rightarrow> r | Inl _ \<Rightarrow> [])] else []) \<and>
          (err = None \<longrightarrow> (\<exists>r. outcome env p st = Inr r)))"
  using assms
  by (auto simp: delegateAdd_def Let_def the_type_def the_bytes_def podif_def outcome_def
      split: sum.splits prod.splits if_splits option.splits jvalue.splits)

lemma run_plan_adds:
  assumes "run_plan (delegateAdd env) ps st = (err, st')"
  shows "\<exists>k\<le>length ps.
           adds (events st') =
             adds (events st) @ map2 (call env) (take k ps) (produce k (podifName st)) \<and>
           (err = None \<longrightarrow> k = length ps)"
  using assms
proof (induction ps arbitrary: st)
  case Nil
  then show ?case by simp
next
  case (Cons p ps)
  obtain e st1 where d: "delegateAdd env p st = (e, st1)" by (cases "delegateAdd env p st")
  from delegateAdd_step [OF d]
  consider (stop) "e \<noteq> None" "events st1 = events st"
    | (go) "podifName st1 = snd (podif (podifName st))"
        "adds (events st1) = adds (events st) @ [call env p (fst (podif (podifName st)))]"
    by (auto simp: call_def)
  then show ?case
  proof cases
    case stop
    then have "err = e" "st' = st1" using Cons.prems d by (auto split: option.splits)
    then show ?thesis using stop by (intro exI [of _ 0]) simp
  next
    case go
    show ?thesis
    proof (cases e)
      case (Some x)
      then have "err = e" "st' = st1" using Cons.prems d by auto
      then show ?thesis using go Some
        by (intro exI [of _ 1]) (simp add: split: prod.splits)
    next
      case None
      then have "run_plan (delegateAdd env) ps st1 = (err, st')" using Cons.prems d by simp
      from Cons.IH [OF this] obtain k where k: "k \<le> length ps"
        "adds (events st') =
           adds (events st1) @ map2 (call env) (take k ps) (produce k (podifName st1))"
        "err = None \<longrightarrow> k = length ps" by blast
      then show ?thesis using go
        by (intro exI [of _ "Suc k"]) (simp add: split: prod.splits)
    qed
  qed
qed

lemma run_plan_later:
  assumes "run_plan (delegateAdd env) ps st = (err, st')" and "1 \<le> ifIdx (podifName st)"
  shows "\<exists>new. events st' = events st @ new \<and> prints new = []"
  using assms
proof (induction ps arbitrary: st)
  case Nil
  then show ?case by simp
next
  case (Cons p ps)
  obtain e st1 where d: "delegateAdd env p st = (e, st1)" by (cases "delegateAdd env p st")
  have nz: "ifIdx (podifName st) \<noteq> 0" using Cons.prems(2) by simp
  from delegateAdd_step [OF d] nz
  consider (stop) "e \<noteq> None" "events st1 = events st"
    | (go) out where "podifName st1 = snd (podif (podifName st))"
        "events st1 = events st @
           [EvDelegateAdd (fst (fst (podif (podifName st)))) (the_type p) (the_bytes env p) out]"
    by auto
  then show ?case
  proof cases
    case stop
    then have "st' = st1" using Cons.prems d by (auto split: option.splits)
    then show ?thesis using stop by simp
  next
    case go
    show ?thesis
    proof (cases e)
      case (Some x)
      then have "st' = st1" using Cons.prems d by auto
      then show ?thesis using go by simp
    next
      case None
      then have r: "run_plan (delegateAdd env) ps st1 = (err, st')" using Cons.prems d by simp
      have "1 \<le> ifIdx (podifName st1)" using go(1) Cons.prems(2) by (simp add: podif_def)
      from Cons.IH [OF r this] obtain new where "events st' = events st1 @ new" "prints new = []"
        by blast
      then show ?thesis using go by simp
    qed
  qed
qed

lemma run_plan_fresh:
  assumes "run_plan (delegateAdd env) (p # ps) st = (err, st')"
    and "ifIdx (podifName st) = 0" and "events st = []"
  shows "(err \<noteq> None \<and> prints (events st') = []) \<or>
         (\<exists>r rest. events st' =
             EvDelegateAdd (ifname (podifName st)) (the_type p) (the_bytes env p) (Inr r) #
             EvPrint r # rest \<and> prints rest = [])"
proof -
  obtain e st1 where d: "delegateAdd env p st = (e, st1)" by (cases "delegateAdd env p st")
  show ?thesis
  proof (cases e)
    case (Some x)
    then have "err = e" "st' = st1" using assms(1) d by auto
    then show ?thesis using delegateAdd_step [OF d] Some assms(3) by auto
  next
    case None
    then have r: "run_plan (delegateAdd env) ps st1 = (err, st')" using assms(1) d by simp
    from delegateAdd_step [OF d] None assms(2,3) obtain r0 where
      g: "podifName st1 = snd (podif (podifName st))" and
      ev: "events st1 =
             [EvDelegateAdd (ifname (podifName st)) (the_type p) (the_bytes env p) (Inr r0),
              EvPrint r0]"
      by (auto simp: podif_def)
    have "1 \<le> ifIdx (podifName st1)" using g assms(2) by (simp add: podif_def)
    from run_plan_later [OF r this] obtain new where
      "events st' = events st1 @ new" "prints new = []"
      by blast
    then show ?thesis using ev by simp
  qed
qed

lemma resolveAll_unresolved:
  "\<exists>n\<in>set names. resolve plugins n = None \<Longrightarrow> \<exists>ps n. resolveAll plugins names = (ps, Some n)"
proof (induction names)
  case Nil
  then show ?case by simp
next
  case (Cons a names)
  show ?case
  proof (cases "resolve plugins a")
    case None
    then show ?thesis by simp
  next
    case (Some p)
    then have "\<exists>n\<in>set names. resolve plugins n = None" using Cons.prems by auto
    from Cons.IH [OF this] show ?thesis using Some by auto
  qed
qed

lemma resolveAll_order:
  "fst (resolveAll plugins names) =
     map (the \<circ> resolve plugins) (takeWhile (\<lambda>n. resolve plugins n \<noteq> None) names)"
  by (induction names) (auto split: option.splits prod.splits)

lemma run_selection_unresolved: "fst (run_selection d (ps, Some n) st) \<noteq> None"
  by (simp add: run_selection_def split: prod.splits option.splits)

lemma resolve_None_iff:
  "resolve plugins n = None \<longleftrightarrow> (\<forall>p\<in>set plugins. map_of p ''name'' \<noteq> Some (JString n))"
  by (auto simp: resolve_def find_None_iff)

text \<open>
  C6. Once the configuration has loaded and its entries have passed \<open>checkPlugin\<close>,
  \<open>Add\<close> and \<open>Del\<close> are "select, then run the plan in order" from the allocator of
  the interface name (and end with its panic, before any delegate, when \<open>getifname\<close>
  panics). With a non-empty dynamic list the selection is \<open>resolveAll\<close>: the names are
  resolved against the static entries in the order of the list (the resolved entries are
  those of the names before the first that has no entry, in that order), and a name with
  no static entry makes the invocation fail. With an empty dynamic list the plan is the
  entry of the default name alone.
\<close>

theorem dispatch_follows_selection:
  assumes "loadNetConf env (StdinData args) = Inr conf"
    and "checkPlugins (Plugins conf) = None"
    and "getPodPlugins env args conf = Inr names"
  shows "multicni_cmdAdd env args =
           (case getifname (IfName args) of
              Inl p \<Rightarrow> (Some (Panicked p), [])
            | Inr g \<Rightarrow>
                run_selection (delegateAdd env) (spec_selection conf names) (start args g)) \<and>
         multicni_cmdDel env args =
           (case getifname (IfName args) of
              Inl p \<Rightarrow> (Some (Panicked p), [])
            | Inr g \<Rightarrow>
                run_selection (delegateDel env) (spec_selection conf names) (start args g)) \<and>
         (names \<noteq> [] \<longrightarrow>
            spec_selection conf names = resolveAll (Plugins conf) names \<and>
            fst (resolveAll (Plugins conf) names) =
              map (the \<circ> resolve (Plugins conf))
                (takeWhile (\<lambda>n. resolve (Plugins conf) n \<noteq> None) names)) \<and>
         (names \<noteq> [] \<and> (\<exists>n\<in>set names. resolve (Plugins conf) n = None) \<longrightarrow>
            fst (multicni_cmdAdd env args) \<noteq> None \<and> fst (multicni_cmdDel env args) \<noteq> None) \<and>
         (names = [] \<longrightarrow>
            (\<forall>p. resolve (Plugins conf) (Default conf) = Some p \<longrightarrow>
               spec_selection conf names = ([p], None)))"
proof -
  have a: "multicni_cmdAdd env args =
           (case getifname (IfName args) of
              Inl p \<Rightarrow> (Some (Panicked p), [])
            | Inr g \<Rightarrow>
                run_selection (delegateAdd env) (spec_selection conf names) (start args g))"
    unfolding multicni_cmdAdd_def by (rule dispatch_run_selection [OF assms(1-3)])
  have d: "multicni_cmdDel env args =
           (case getifname (IfName args) of
              Inl p \<Rightarrow> (Some (Panicked p), [])
            | Inr g \<Rightarrow>
                run_selection (delegateDel env) (spec_selection conf names) (start args g))"
    unfolding multicni_cmdDel_def by (rule dispatch_run_selection [OF assms(1-3)])
  have u: "fst (multicni_cmdAdd env args) \<noteq> None \<and> fst (multicni_cmdDel env args) \<noteq> None"
    if "names \<noteq> []" "\<exists>n\<in>set names. resolve (Plugins conf) n = None"
  proof -
    from resolveAll_unresolved [OF that(2)] obtain ps n where
      "resolveAll (Plugins conf) names = (ps, Some n)" by blast
    then have "spec_selection conf names = (ps, Some n)" using that(1)
      by (simp add: spec_selection_def)
    then have s: "spec_selection conf names = (ps, Some n)" .
    show ?thesis
    proof (cases "getifname (IfName args)")
      case (Inl p)
      then show ?thesis using a d by simp
    next
      case (Inr g)
      then show ?thesis using a d s run_selection_unresolved [of _ ps n "start args g"]
        by simp
    qed
  qed
  have o: "spec_selection conf names = resolveAll (Plugins conf) names \<and>
           fst (resolveAll (Plugins conf) names) =
             map (the \<circ> resolve (Plugins conf))
               (takeWhile (\<lambda>n. resolve (Plugins conf) n \<noteq> None) names)"
    if "names \<noteq> []"
    using that by (simp add: spec_selection_def resolveAll_order)
  have e: "\<forall>p. resolve (Plugins conf) (Default conf) = Some p \<longrightarrow>
             spec_selection conf names = ([p], None)"
    if "names = []"
    using that by (simp add: spec_selection_def)
  show ?thesis using a d u o e by blast
qed

text \<open>The example configuration loads and passes the checks.\<close>

lemma ex_load:
  "dflt \<noteq> [] \<Longrightarrow> loadNetConf (ex_env dflt ann) (StdinData ex_args) = Inr (ex_conf dflt)"
  by (simp add: loadNetConf_def ex_env_def ex_conf_def)

lemma ex_check: "checkPlugins (Plugins (ex_conf dflt)) = None"
  by (simp add: ex_conf_def ex_pA_def ex_pB_def ex_pC_def checkPlugin_def isNil_def isString_def)

text \<open>
  C6 on the example: the dynamic list \<open>[C, Z]\<close> fails, \<open>Z\<close> having no static entry; the
  dynamic list \<open>[C, A]\<close> runs the plan \<open>C\<close> then \<open>A\<close>.
\<close>

theorem dispatch_follows_selection_witness:
  "fst (multicni_cmdAdd (ex_env ''A'' (Inr ann_CZ)) ex_args) \<noteq> None \<and>
   fst (multicni_cmdDel (ex_env ''A'' (Inr ann_CZ)) ex_args) \<noteq> None \<and>
   multicni_cmdAdd (ex_env ''A'' (Inr ann_CA)) ex_args =
     run_selection (delegateAdd (ex_env ''A'' (Inr ann_CA))) ([ex_pC, ex_pA], None)
       (start ex_args ex_gen)"
proof -
  have h1: "loadNetConf (ex_env ''A'' ann) (StdinData ex_args) = Inr (ex_conf ''A'')" for ann
    by (simp add: ex_load)
  have h3: "getPodPlugins (ex_env ''A'' (Inr ann_CZ)) ex_args (ex_conf ''A'') = Inr [''C'', ''Z'']"
    by code_simp
  have h3': "getPodPlugins (ex_env ''A'' (Inr ann_CA)) ex_args (ex_conf ''A'') = Inr [''C'', ''A'']"
    by code_simp
  have z: "resolve (Plugins (ex_conf ''A'')) ''Z'' = None"
    by code_simp
  have s: "spec_selection (ex_conf ''A'') [''C'', ''A''] = ([ex_pC, ex_pA], None)"
    by code_simp
  note t1 = dispatch_follows_selection [OF h1 ex_check h3]
  note t2 = dispatch_follows_selection [OF h1 ex_check h3']
  have p: "[''C'', ''Z''] \<noteq> [] \<and> (\<exists>n\<in>set [''C'', ''Z'']. resolve (Plugins (ex_conf ''A'')) n = None)"
    using z by simp
  have 1: "fst (multicni_cmdAdd (ex_env ''A'' (Inr ann_CZ)) ex_args) \<noteq> None \<and>
           fst (multicni_cmdDel (ex_env ''A'' (Inr ann_CZ)) ex_args) \<noteq> None"
    using t1 p by blast
  have 2: "multicni_cmdAdd (ex_env ''A'' (Inr ann_CA)) ex_args =
     (case getifname (IfName ex_args) of
        Inl p \<Rightarrow> (Some (Panicked p), [])
      | Inr g \<Rightarrow>
          run_selection (delegateAdd (ex_env ''A'' (Inr ann_CA)))
            (spec_selection (ex_conf ''A'') [''C'', ''A'']) (start ex_args g))"
    using t2 by blast
  show ?thesis using 1 2 by (simp only: s ex_getifname) simp
qed

text \<open>
  With an empty dynamic list and no static entry bearing the default name, \<open>Add\<close> and
  \<open>Del\<close> invoke no delegate and print nothing; they return success if \<open>getifname\<close>
  returns, and end with its panic otherwise.
\<close>

lemma no_default_entry_no_delegate:
  assumes "loadNetConf env (StdinData args) = Inr conf"
    and "checkPlugins (Plugins conf) = None"
    and "getPodPlugins env args conf = Inr []"
    and "\<forall>p\<in>set (Plugins conf). map_of p ''name'' \<noteq> Some (JString (Default conf))"
  shows "multicni_cmdAdd env args =
           (case getifname (IfName args) of
              Inl p \<Rightarrow> (Some (Panicked p), []) | Inr g \<Rightarrow> (None, [])) \<and>
         multicni_cmdDel env args =
           (case getifname (IfName args) of
              Inl p \<Rightarrow> (Some (Panicked p), []) | Inr g \<Rightarrow> (None, []))"
proof -
  have "resolve (Plugins conf) (Default conf) = None"
    using assms(4) by (simp add: resolve_None_iff)
  then have "spec_selection conf [] = ([], None)"
    by (simp add: spec_selection_def)
  then show ?thesis
    using dispatch_run_selection [OF assms(1-3)]
    by (simp add: multicni_cmdAdd_def multicni_cmdDel_def run_selection_def start_def
        split: sum.splits)
qed

text \<open>
  C10 (implicit). The claim is that an invocation with an empty dynamic list and no
  static entry bearing the default name returns success. Both commands build the
  allocator of the interface name before they look for the default entry, and
  \<open>getifname\<close> slices the runes of the name at the byte offset of its last digit. On the
  name of bytes \<open>c3 a9 c3 a9 31\<close> that offset is 4 and the name has three runes: the
  slice expression panics, and \<open>Add\<close> and \<open>Del\<close> end with that panic where the claim
  has them return success. The example has the default name \<open>D\<close>, which no entry bears,
  and a pod that is not found, so that its dynamic list is empty.
\<close>

theorem getifname_panic_without_default_entry:
  "getPodPlugins (ex_env ''D'' (Inl ''pod not found'')) ex_args_utf8 (ex_conf ''D'') = Inr [] \<and>
   resolve (Plugins (ex_conf ''D'')) (Default (ex_conf ''D'')) = None \<and>
   LastIndexAny (IfName ex_args_utf8) ''0123456789'' = 4 \<and>
   length (runes_of (IfName ex_args_utf8)) = 3 \<and>
   getifname (IfName ex_args_utf8) = Inl SliceBoundsPanic \<and>
   multicni_cmdAdd (ex_env ''D'' (Inl ''pod not found'')) ex_args_utf8 =
     (Some (Panicked SliceBoundsPanic), []) \<and>
   multicni_cmdDel (ex_env ''D'' (Inl ''pod not found'')) ex_args_utf8 =
     (Some (Panicked SliceBoundsPanic), [])"
  by code_simp

text \<open>
  C7. In an \<open>Add\<close>, the delegates are invoked in the order of the plan, the \<open>i\<close>-th with
  the \<open>i\<close>-th name of the allocator (all of the plan when the \<open>Add\<close> succeeds); when
  \<open>getifname\<close> panics there is no allocator, and the \<open>Add\<close> ends with the panic and an
  empty trace. The trace prints nothing, or it starts with the invocation of the first
  entry of the plan under the interface name the \<open>Add\<close> was given, followed at once by
  the printing of that invocation's result, and nothing is printed after that. A
  successful \<open>Add\<close> over a non-empty plan does print.
\<close>

theorem primary_result_is_surfaced:
  assumes "loadNetConf env (StdinData args) = Inr conf"
    and "checkPlugins (Plugins conf) = None"
    and "getPodPlugins env args conf = Inr names"
    and "spec_selection conf names = (plan, u)"
    and "multicni_cmdAdd env args = (err, evs)"
  shows "(case getifname (IfName args) of
            Inl p \<Rightarrow> err = Some (Panicked p) \<and> evs = []
          | Inr g \<Rightarrow>
              (\<exists>k\<le>length plan.
                 adds evs = map2 (call env) (take k plan) (produce k g) \<and>
                 (err = None \<longrightarrow> k = length plan))) \<and>
         (prints evs = [] \<or>
          (\<exists>p ps r rest. plan = p # ps \<and>
             evs = EvDelegateAdd (IfName args) (the_type p) (the_bytes env p) (Inr r) #
                   EvPrint r # rest \<and>
             prints rest = [])) \<and>
         (err = None \<and> plan \<noteq> [] \<longrightarrow> prints evs \<noteq> [])"
proof (cases "getifname (IfName args)")
  case (Inl p)
  have "multicni_cmdAdd env args = (Some (Panicked p), [])"
    unfolding multicni_cmdAdd_def using dispatch_run_selection [OF assms(1-3)] Inl by simp
  then have "err = Some (Panicked p)" "evs = []" using assms(5) by simp_all
  then show ?thesis using Inl by simp
next
  case (Inr g)
  obtain e st' where r: "run_plan (delegateAdd env) plan (start args g) = (e, st')"
    by (cases "run_plan (delegateAdd env) plan (start args g)")
  have "multicni_cmdAdd env args = run_selection (delegateAdd env) (plan, u) (start args g)"
    unfolding multicni_cmdAdd_def
    using dispatch_run_selection [OF assms(1-3)] assms(4) Inr by simp
  then have ev: "evs = events st'" and en: "err = None \<longrightarrow> e = None"
    using assms(5) r by (auto simp: run_selection_def split: option.splits)
  have s0: "events (start args g) = []" "podifName (start args g) = g"
    by (simp_all add: start_def)
  from run_plan_adds [OF r] have 1:
    "\<exists>k\<le>length plan.
        adds evs = map2 (call env) (take k plan) (produce k g) \<and>
        (err = None \<longrightarrow> k = length plan)"
    using ev en s0 by auto
  have 2: "(e \<noteq> None \<or> plan = []) \<and> prints evs = [] \<or>
          (\<exists>p ps r rest. plan = p # ps \<and>
             evs = EvDelegateAdd (IfName args) (the_type p) (the_bytes env p) (Inr r) #
                   EvPrint r # rest \<and>
             prints rest = [])"
  proof (cases plan)
    case Nil
    then show ?thesis using r ev s0 by simp
  next
    case (Cons p ps)
    from run_plan_fresh [OF r [unfolded Cons]] show ?thesis
      using ev s0 Cons by (simp add: getifname_ifIdx [OF Inr] getifname_ifname [OF Inr])
  qed
  have 3: "prints evs \<noteq> []" if "err = None" "plan \<noteq> []"
    using 2 that en by auto
  show ?thesis using 1 2 3 Inr by (simp only: sum.case) blast
qed

text \<open>
  C7 on the example: with the dynamic list \<open>[C, A]\<close> and the default \<open>A\<close>, \<open>C\<close> is
  invoked first, on \<open>eth0\<close>, then \<open>A\<close> on \<open>eth1\<close>, and the document printed is the
  result of \<open>C\<close>.
\<close>

theorem primary_result_is_surfaced_witness:
  "adds (snd (multicni_cmdAdd (ex_env ''A'' (Inr ann_CA)) ex_args)) =
     [(''eth0'', ''host-device'', ''conf C''), (''eth1'', ''bridge'', ''conf A'')] \<and>
   prints (snd (multicni_cmdAdd (ex_env ''A'' (Inr ann_CA)) ex_args)) = [''host-device on eth0'']"
proof -
  let ?env = "ex_env ''A'' (Inr ann_CA)"
  have h1: "loadNetConf ?env (StdinData ex_args) = Inr (ex_conf ''A'')"
    by (simp add: ex_load)
  have h3: "getPodPlugins ?env ex_args (ex_conf ''A'') = Inr [''C'', ''A'']"
    by code_simp
  have h5: "spec_selection (ex_conf ''A'') [''C'', ''A''] = ([ex_pC, ex_pA], None)"
    by code_simp
  have h6: "multicni_cmdAdd ?env ex_args =
      (None, [EvDelegateAdd ''eth0'' ''host-device'' ''conf C'' (Inr ''host-device on eth0''),
              EvPrint ''host-device on eth0'',
              EvDelegateAdd ''eth1'' ''bridge'' ''conf A'' (Inr ''bridge on eth1'')])"
    by code_simp
  show ?thesis
    using primary_result_is_surfaced [OF h1 ex_check h3 h5 h6] h6 by simp
qed

text \<open>
  C5 as stated does not hold: an annotation \<open>cni-plugins\<close> that is not empty and does not
  parse makes \<open>Add\<close> and \<open>Del\<close> return an error, before any delegate is invoked.
\<close>

theorem annotation_parse_failure_is_returned:
  "multicni_cmdAdd (ex_env ''A'' (Inr ''not json'')) ex_args =
     (Some (ErrPodAnnotation ''not json''), []) \<and>
   multicni_cmdDel (ex_env ''A'' (Inr ''not json'')) ex_args =
     (Some (ErrPodAnnotation ''not json''), [])"
  by code_simp

text \<open>
  C5, amended. A failure of the lookup (the client cannot be created, or the pod's
  annotations cannot be fetched) is recovered locally: the command behaves as with an
  empty dynamic list, that is, it runs the default plugin from the allocator of the
  interface name (and ends with the panic of \<open>getifname\<close> when there is one, as it does
  with any dynamic list). A non-empty annotation \<open>cni-plugins\<close> that fails to parse is
  returned to the caller as an error, and no delegate is invoked.
\<close>

theorem metadata_lookup_failure_is_recovered:
  assumes "loadNetConf env (StdinData args) = Inr conf"
    and "checkPlugins (Plugins conf) = None"
  shows "((\<exists>e. createK8sClient env (Kubeconfig conf) = Inl e) \<or>
          (\<exists>e. getK8sPodAnnotations env () args = Inl e) \<longrightarrow>
            multicni_cmdAdd env args =
              (case getifname (IfName args) of
                 Inl p \<Rightarrow> (Some (Panicked p), [])
               | Inr g \<Rightarrow>
                   run_selection (delegateAdd env) (spec_selection conf []) (start args g)) \<and>
            multicni_cmdDel env args =
              (case getifname (IfName args) of
                 Inl p \<Rightarrow> (Some (Panicked p), [])
               | Inr g \<Rightarrow>
                   run_selection (delegateDel env) (spec_selection conf []) (start args g))) \<and>
         (\<forall>annot v e.
            createK8sClient env (Kubeconfig conf) = Inr () \<and>
            getK8sPodAnnotations env () args = Inr annot \<and>
            annot ''cni-plugins'' = Some v \<and> v \<noteq> [] \<and>
            parsePodNetworkObject env v = Inl e \<longrightarrow>
              multicni_cmdAdd env args = (Some (ErrPodAnnotation v), []) \<and>
              multicni_cmdDel env args = (Some (ErrPodAnnotation v), []))"
proof -
  have 1: "multicni_cmdAdd env args =
              (case getifname (IfName args) of
                 Inl p \<Rightarrow> (Some (Panicked p), [])
               | Inr g \<Rightarrow>
                   run_selection (delegateAdd env) (spec_selection conf []) (start args g)) \<and>
           multicni_cmdDel env args =
              (case getifname (IfName args) of
                 Inl p \<Rightarrow> (Some (Panicked p), [])
               | Inr g \<Rightarrow>
                   run_selection (delegateDel env) (spec_selection conf []) (start args g))"
    if "(\<exists>e. createK8sClient env (Kubeconfig conf) = Inl e) \<or>
        (\<exists>e. getK8sPodAnnotations env () args = Inl e)"
  proof -
    have "getPodPlugins env args conf = Inr []"
      using that by (auto simp: getPodPlugins_def split: sum.splits)
    from dispatch_run_selection [OF assms(1,2) this] show ?thesis
      by (simp add: multicni_cmdAdd_def multicni_cmdDel_def)
  qed
  have 2: "multicni_cmdAdd env args = (Some (ErrPodAnnotation v), []) \<and>
           multicni_cmdDel env args = (Some (ErrPodAnnotation v), [])"
    if "createK8sClient env (Kubeconfig conf) = Inr ()"
      "getK8sPodAnnotations env () args = Inr annot"
      "annot ''cni-plugins'' = Some v" "v \<noteq> []" "parsePodNetworkObject env v = Inl e"
    for annot v e
  proof -
    have "getPodPlugins env args conf = Inl (ErrPodAnnotation v)"
      using that by (simp add: getPodPlugins_def)
    then show ?thesis using assms(1,2)
      by (simp add: multicni_cmdAdd_def multicni_cmdDel_def dispatch_def)
  qed
  show ?thesis using 1 2 by blast
qed

text \<open>C5, amended, on the example: a pod that is not found, and an annotation that is not JSON.\<close>

theorem metadata_lookup_failure_is_recovered_witness:
  "multicni_cmdAdd (ex_env ''A'' (Inl ''pod not found'')) ex_args =
     (None, [EvDelegateAdd ''eth0'' ''bridge'' ''conf A'' (Inr ''bridge on eth0''),
             EvPrint ''bridge on eth0'']) \<and>
   multicni_cmdDel (ex_env ''A'' (Inr ''not json'')) ex_args =
     (Some (ErrPodAnnotation ''not json''), [])"
proof -
  let ?env = "ex_env ''A'' (Inl ''pod not found'')"
  let ?env' = "ex_env ''A'' (Inr ''not json'')"
  have h1: "loadNetConf (ex_env ''A'' ann) (StdinData ex_args) = Inr (ex_conf ''A'')" for ann
    by (simp add: ex_load)
  have a: "getK8sPodAnnotations ?env () ex_args = Inl (External ''pod not found'')"
    by (simp add: getK8sPodAnnotations_def loadArgs_def ex_env_def ex_args_def)
  have r: "run_selection (delegateAdd ?env) (spec_selection (ex_conf ''A'') []) (start ex_args ex_gen) =
     (None, [EvDelegateAdd ''eth0'' ''bridge'' ''conf A'' (Inr ''bridge on eth0''),
             EvPrint ''bridge on eth0''])"
    by code_simp
  have b: "createK8sClient ?env' (Kubeconfig (ex_conf ''A'')) = Inr ()"
    "getK8sPodAnnotations ?env' () ex_args = Inr [''cni-plugins'' \<mapsto> ''not json'']"
    "parsePodNetworkObject ?env' ''not json'' = Inl (ParsePodNetworkObject ''invalid character'')"
    by (simp_all add: createK8sClient_def getK8sPodAnnotations_def parsePodNetworkObject_def
        loadArgs_def ex_env_def ex_conf_def ann_CA_def ann_CZ_def)
  show ?thesis
    using metadata_lookup_failure_is_recovered [OF h1 ex_check, of "Inl ''pod not found''"]
      metadata_lookup_failure_is_recovered [OF h1 ex_check, of "Inr ''not json''"] a r b
      ex_getifname
    by auto
qed

subsection \<open>host-device: finding the link\<close>

lemma first_of_simps [simp]: "first_of [] = None" "first_of (x # xs) = Some x"
  by (simp_all add: first_of_def)

lemma first_of_append:
  "first_of (xs @ ys) = (case first_of xs of Some l \<Rightarrow> Some l | None \<Rightarrow> first_of ys)"
  by (cases xs) simp_all

lemma byDevice_matches: "byDevice devices w = first_of (name_matches w devices)"
proof (induction devices)
  case Nil
  then show ?case by (simp add: name_matches_def)
next
  case (Cons d ds)
  have "name_matches w (d # ds) =
          (case netlink_LinkByName d w of Inr l \<Rightarrow> [l] | Inl _ \<Rightarrow> []) @ name_matches w ds"
    by (simp add: name_matches_def)
  then show ?case using Cons.IH by (simp split: sum.splits)
qed

lemma scanHWAddr_filter: "scanHWAddr a ls = first_of (filter (\<lambda>l. HardwareAddr l = a) ls)"
  by (induction ls) simp_all

lemma byHWAddr_matches: "byHWAddr env ls hwaddrs = first_of (hwaddr_matches env ls hwaddrs)"
proof (induction hwaddrs)
  case Nil
  then show ?case by (simp add: hwaddr_matches_def)
next
  case (Cons h hs)
  have "hwaddr_matches env ls (h # hs) =
          (case net_ParseMAC env h of
             Inl _ \<Rightarrow> []
           | Inr a \<Rightarrow> filter (\<lambda>l. HardwareAddr l = a) ls) @ hwaddr_matches env ls hs"
    by (simp add: hwaddr_matches_def)
  then show ?case using Cons.IH
    by (simp add: first_of_append scanHWAddr_filter split: sum.splits option.splits)
qed

lemma scanName_filter: "scanName f ls = first_of (filter (\<lambda>l. Name l = f) ls)"
  by (induction ls) auto

lemma scanFiles_concat:
  "scanFiles files ls = first_of (concat (map (\<lambda>file. filter (\<lambda>l. Name l = file) ls) files))"
  by (induction files) (simp_all add: first_of_append scanName_filter split: option.splits)

lemma byKernelPath_matches:
  "byKernelPath env ls kernelpaths = first_of (kernelpath_matches env ls kernelpaths)"
proof (induction kernelpaths)
  case Nil
  then show ?case by (simp add: kernelpath_matches_def)
next
  case (Cons k ks)
  have "kernelpath_matches env ls (k # ks) =
          (if IsAbs k \<and> HasPrefix k ''/sys/devices/''
           then (case ioutil_ReadDir env (filepath_Join env k ''net'') of
                   Inl _ \<Rightarrow> []
                 | Inr files \<Rightarrow> concat (map (\<lambda>file. filter (\<lambda>l. Name l = file) ls) files))
           else []) @ kernelpath_matches env ls ks"
    by (simp add: kernelpath_matches_def)
  then have u: "first_of (kernelpath_matches env ls (k # ks)) =
      (case first_of (if IsAbs k \<and> HasPrefix k ''/sys/devices/''
           then (case ioutil_ReadDir env (filepath_Join env k ''net'') of
                   Inl _ \<Rightarrow> []
                 | Inr files \<Rightarrow> concat (map (\<lambda>file. filter (\<lambda>l. Name l = file) ls) files))
           else []) of Some l \<Rightarrow> Some l | None \<Rightarrow> byKernelPath env ls ks)"
    using Cons.IH by (simp only: first_of_append)
  show ?case
  proof (cases "IsAbs k \<and> HasPrefix k ''/sys/devices/''")
    case False
    then show ?thesis unfolding u by auto
  next
    case True
    show ?thesis
    proof (cases "ioutil_ReadDir env (filepath_Join env k ''net'')")
      case (Inl e)
      then show ?thesis unfolding u using True by simp
    next
      case (Inr files)
      then show ?thesis unfolding u using True
        by (simp add: scanFiles_concat split: option.splits)
    qed
  qed
qed

lemma first_match_first_of:
  "first_match ms = (case first_of ms of None \<Rightarrow> Inl FailedToFindPhysicalInterface | Some l \<Rightarrow> Inr l)"
  by (cases ms) (simp_all add: first_match_def)

lemma getLink_eq:
  assumes "netlink_LinkList env w = Inr ls"
  shows "getLink env devices hwaddrs kernelpaths w =
           first_match (name_matches w devices @ hwaddr_matches env ls hwaddrs @
                        kernelpath_matches env ls kernelpaths)"
  using assms
  by (simp add: getLink_def first_match_first_of first_of_append byDevice_matches
      byHWAddr_matches byKernelPath_matches split: option.splits)

text \<open>
  C4. When the links can be listed, \<open>getLink\<close> returns the first match of the three
  categories tried in the order names, hardware addresses, kernel paths: the head of
  the name matches followed by the hardware-address matches followed by the kernel-path
  matches. So a link matched by name is returned whatever the other selectors match,
  and the error \<open>failed to find physical interface\<close> is returned exactly when none of
  the three categories has a match.
\<close>

theorem getLink_first_match:
  assumes "netlink_LinkList env w = Inr ls"
  shows "getLink env devices hwaddrs kernelpaths w =
           first_match (name_matches w devices @ hwaddr_matches env ls hwaddrs @
                        kernelpath_matches env ls kernelpaths) \<and>
         (name_matches w devices \<noteq> [] \<longrightarrow>
            getLink env devices hwaddrs kernelpaths w = Inr (hd (name_matches w devices))) \<and>
         (name_matches w devices = [] \<and> hwaddr_matches env ls hwaddrs \<noteq> [] \<longrightarrow>
            getLink env devices hwaddrs kernelpaths w =
              Inr (hd (hwaddr_matches env ls hwaddrs))) \<and>
         (name_matches w devices = [] \<and> hwaddr_matches env ls hwaddrs = [] \<and>
          kernelpath_matches env ls kernelpaths \<noteq> [] \<longrightarrow>
            getLink env devices hwaddrs kernelpaths w =
              Inr (hd (kernelpath_matches env ls kernelpaths))) \<and>
         (getLink env devices hwaddrs kernelpaths w = Inl FailedToFindPhysicalInterface \<longleftrightarrow>
            name_matches w devices = [] \<and> hwaddr_matches env ls hwaddrs = [] \<and>
            kernelpath_matches env ls kernelpaths = [])"
proof -
  let ?n = "name_matches w devices" and ?h = "hwaddr_matches env ls hwaddrs"
    and ?k = "kernelpath_matches env ls kernelpaths"
  note e = getLink_eq [OF assms, of devices hwaddrs kernelpaths]
  have 1: "first_match (xs @ ys) = Inr (hd xs)" if "xs \<noteq> []" for xs ys
    using that by (cases xs) (simp_all add: first_match_def)
  have 2: "first_match (?n @ ?h @ ?k) = Inr (hd ?n)" if "?n \<noteq> []"
    using 1 [OF that] .
  have 3: "first_match (?n @ ?h @ ?k) = Inr (hd ?h)" if "?n = []" "?h \<noteq> []"
    using 1 [OF that(2)] that(1) by simp
  have 4: "first_match (?n @ ?h @ ?k) = Inr (hd ?k)" if "?n = []" "?h = []" "?k \<noteq> []"
    using 1 [OF that(3), of "[]"] that(1,2) by simp
  have 5: "first_match ms = Inl FailedToFindPhysicalInterface \<longleftrightarrow> ms = []" for ms
    by (cases ms) (simp_all add: first_match_def)
  show ?thesis using e 2 3 4 5 [of "?n @ ?h @ ?k"] by simp
qed

text \<open>
  C4 on the example host: the name selects \<open>eth1\<close>, the hardware address \<open>eth2\<close>, the
  kernel path \<open>enp0s25\<close>, and \<open>getLink\<close> returns \<open>eth1\<close>.
\<close>

theorem getLink_first_match_witness:
  "getLink (ex_henv (Inr ''10.0.0.2/24'') None) (Devices ex_hcfg) (HWAddrs ex_hcfg) (KernelPaths ex_hcfg) ex_world = Inr ex_eth1 \<and>
   name_matches ex_world (Devices ex_hcfg) = [ex_eth1] \<and>
   hwaddr_matches (ex_henv (Inr ''10.0.0.2/24'') None) (here ex_world) (HWAddrs ex_hcfg) = [ex_eth2] \<and>
   kernelpath_matches (ex_henv (Inr ''10.0.0.2/24'') None) (here ex_world) (KernelPaths ex_hcfg) = [ex_enp]"
proof -
  let ?env = "ex_henv (Inr ''10.0.0.2/24'') None"
  have h: "netlink_LinkList ?env ex_world = Inr (here ex_world)"
    by (simp add: netlink_LinkList_def ex_henv_def)
  have n: "name_matches ex_world (Devices ex_hcfg) = [ex_eth1]"
    by code_simp
  have m: "hwaddr_matches ?env (here ex_world) (HWAddrs ex_hcfg) = [ex_eth2]"
    by code_simp
  have k: "kernelpath_matches ?env (here ex_world) (KernelPaths ex_hcfg) = [ex_enp]"
    by code_simp
  show ?thesis
    using getLink_first_match [OF h, of "Devices ex_hcfg" "HWAddrs ex_hcfg" "KernelPaths ex_hcfg"] n m k
    by (simp add: first_match_def)
qed

subsection \<open>host-device: attach, detach and the two commands\<close>

lemma logged_simps [simp]:
  "calls (logged c w) = calls w @ [c]" "links (logged c w) = links w" "curNs (logged c w) = curNs w"
  by (simp_all add: logged_def)

lemma LinkByName_cong:
  "links v = links w \<Longrightarrow> curNs v = curNs w \<Longrightarrow> netlink_LinkByName n v = netlink_LinkByName n w"
  by (simp add: netlink_LinkByName_def here_def)

lemma setlink_result:
  assumes "setlink env c idx f w = (r, w')"
  shows "calls w' = calls w @ [c] \<and> curNs w' = curNs w \<and>
         (r \<noteq> None \<longrightarrow> links w' = links w) \<and>
         (r = None \<longrightarrow>
            links w' = map (\<lambda>l. if Index l = idx \<and> NetNs l = curNs w then f l else l) (links w))"
  using assms by (auto simp: setlink_def split: option.splits if_splits)

lemma LinkSetDown_result:
  assumes "netlink_LinkSetDown env dev w = (r, w')"
  shows "calls w' = calls w @ [CLinkSetDown (Index dev)] \<and> curNs w' = curNs w \<and>
         (r \<noteq> None \<longrightarrow> links w' = links w) \<and>
         (r = None \<longrightarrow>
            links w' = map (\<lambda>l. if Index l = Index dev \<and> NetNs l = curNs w
                                then l\<lparr>Up := False\<rparr> else l) (links w))"
  using setlink_result [OF assms [unfolded netlink_LinkSetDown_def]] .

lemma LinkSetName_result:
  assumes "netlink_LinkSetName env dev n w = (r, w')"
  shows "calls w' = calls w @ [CLinkSetName (Index dev) n] \<and> curNs w' = curNs w \<and>
         (r \<noteq> None \<longrightarrow> links w' = links w) \<and>
         (r = None \<longrightarrow> dev_valid_name n \<and>
            links w' = map (\<lambda>l. if Index l = Index dev \<and> NetNs l = curNs w
                                then l\<lparr>Name := n\<rparr> else l) (links w))"
proof (cases "\<not> dev_valid_name n \<or> list_ex (\<lambda>x. Name x = n \<and> Index x \<noteq> Index dev) (here w)")
  case True
  then show ?thesis using assms by (auto simp: netlink_LinkSetName_def split: if_splits)
next
  case False
  then have "n \<noteq> []" "\<not> 15 < length n" by (auto simp: dev_valid_name_def)
  with False
  have "setlink env (CLinkSetName (Index dev) n) (Index dev) (\<lambda>x. x\<lparr>Name := n\<rparr>) w = (r, w')"
    using assms by (simp add: netlink_LinkSetName_def)
  from setlink_result [OF this] False show ?thesis by simp
qed

lemma LinkSetNsFd_result:
  assumes "netlink_LinkSetNsFd env dev fd w = (r, w')"
  shows "calls w' = calls w @ [CLinkSetNsFd (Index dev) fd] \<and> curNs w' = curNs w \<and>
         (r \<noteq> None \<longrightarrow> links w' = links w) \<and>
         (r = None \<longrightarrow>
            links w' = map (\<lambda>l. if Index l = Index dev \<and> NetNs l = curNs w
                                then l\<lparr>NetNs := fd, Index := new_index (Index dev) fd w\<rparr>
                                else l) (links w))"
proof (cases "fd \<noteq> curNs w \<and>
         list_ex (\<lambda>x. NetNs x = fd \<and>
                      list_ex (\<lambda>y. Index y = Index dev \<and> Name y = Name x) (here w)) (links w)")
  case True
  then show ?thesis using assms by (auto simp: netlink_LinkSetNsFd_def split: if_splits)
next
  case False
  then have "setlink env (CLinkSetNsFd (Index dev) fd) (Index dev)
               (\<lambda>x. x\<lparr>NetNs := fd, Index := new_index (Index dev) fd w\<rparr>) w = (r, w')"
    using assms by (auto simp: netlink_LinkSetNsFd_def split: if_splits)
  from setlink_result [OF this] show ?thesis by simp
qed

text \<open>The function literal of \<open>moveLinkOut\<close>, step by step.\<close>

lemma moveLinkOut_func_calls:
  "\<exists>xs. calls (snd (moveLinkOut_func env ifName d v)) = calls v @ xs"
proof (cases "netlink_LinkByName ifName v")
  case (Inl e)
  then show ?thesis by (simp add: moveLinkOut_func_def)
next
  case (Inr dev)
  obtain r1 v1 where s1: "netlink_LinkSetDown env dev v = (r1, v1)"
    by (cases "netlink_LinkSetDown env dev v")
  obtain r2 v2 where s2: "netlink_LinkSetName env dev (Alias dev) v1 = (r2, v2)"
    by (cases "netlink_LinkSetName env dev (Alias dev) v1")
  obtain r3 v3 where s3: "netlink_LinkSetNsFd env dev d v2 = (r3, v3)"
    by (cases "netlink_LinkSetNsFd env dev d v2")
  note c = LinkSetDown_result [OF s1] LinkSetName_result [OF s2] LinkSetNsFd_result [OF s3]
  show ?thesis using Inr s1 s2 s3 c
    by (cases r1; cases r2; cases r3) (simp_all add: moveLinkOut_func_def)
qed

lemma moveLinkOut_func_noalias:
  assumes "netlink_LinkByName ifName v = Inr dev" and "Alias dev = []"
  shows "\<exists>e v'. moveLinkOut_func env ifName d v = (Inl e, v') \<and>
           map Name (links v') = map Name (links v) \<and>
           map NetNs (links v') = map NetNs (links v)"
proof -
  obtain r1 v1 where s1: "netlink_LinkSetDown env dev v = (r1, v1)"
    by (cases "netlink_LinkSetDown env dev v")
  obtain r2 v2 where s2: "netlink_LinkSetName env dev [] v1 = (r2, v2)"
    by (cases "netlink_LinkSetName env dev [] v1")
  have inv: "\<not> dev_valid_name []" by (simp add: dev_valid_name_def)
  from LinkSetName_result [OF s2] inv have r2: "r2 \<noteq> None" "links v2 = links v1" by auto
  from LinkSetDown_result [OF s1] have
    l1: "map Name (links v1) = map Name (links v) \<and> map NetNs (links v1) = map NetNs (links v)"
    by (cases r1) (auto simp: comp_def)
  show ?thesis using assms s1 s2 r2 l1
    by (cases r1) (auto simp: moveLinkOut_func_def)
qed

lemma moveLinkOut_func_success:
  assumes "moveLinkOut_func env ifName d v = (Inr (), v')"
  shows "\<exists>dev. netlink_LinkByName ifName v = Inr dev \<and> dev_valid_name (Alias dev) \<and>
           map Name (links v') =
             map (\<lambda>l. if Index l = Index dev \<and> NetNs l = curNs v then Alias dev else Name l)
               (links v) \<and>
           map NetNs (links v') =
             map (\<lambda>l. if Index l = Index dev \<and> NetNs l = curNs v then d else NetNs l)
               (links v) \<and>
           map Up (links v') =
             map (\<lambda>l. if Index l = Index dev \<and> NetNs l = curNs v then False else Up l)
               (links v)"
proof (cases "netlink_LinkByName ifName v")
  case (Inl e)
  then show ?thesis using assms by (simp add: moveLinkOut_func_def)
next
  case (Inr dev)
  obtain r1 v1 where s1: "netlink_LinkSetDown env dev v = (r1, v1)"
    by (cases "netlink_LinkSetDown env dev v")
  obtain r2 v2 where s2: "netlink_LinkSetName env dev (Alias dev) v1 = (r2, v2)"
    by (cases "netlink_LinkSetName env dev (Alias dev) v1")
  obtain r3 v3 where s3: "netlink_LinkSetNsFd env dev d v2 = (r3, v3)"
    by (cases "netlink_LinkSetNsFd env dev d v2")
  have ok: "r1 = None" "r2 = None" "r3 = None" "v' = v3"
    using assms Inr s1 s2 s3
    by (auto simp: moveLinkOut_func_def split: option.splits)
  note c1 = LinkSetDown_result [OF s1] and c2 = LinkSetName_result [OF s2]
    and c3 = LinkSetNsFd_result [OF s3]
  have l1: "links v1 = map (\<lambda>l. if Index l = Index dev \<and> NetNs l = curNs v
                               then l\<lparr>Up := False\<rparr> else l) (links v)"
    and n1: "curNs v1 = curNs v"
    using c1 ok by simp_all
  have l2: "links v2 = map (\<lambda>l. if Index l = Index dev \<and> NetNs l = curNs v
                               then l\<lparr>Name := Alias dev\<rparr> else l) (links v1)"
    and n2: "curNs v2 = curNs v"
    using c2 ok n1 by simp_all
  have l3: "links v3 = map (\<lambda>l. if Index l = Index dev \<and> NetNs l = curNs v
                               then l\<lparr>NetNs := d, Index := new_index (Index dev) d v2\<rparr>
                               else l) (links v2)"
    using c3 ok n2 by simp
  have "map Name (links v3) =
          map (\<lambda>l. if Index l = Index dev \<and> NetNs l = curNs v then Alias dev else Name l)
            (links v)"
    and "map NetNs (links v3) =
          map (\<lambda>l. if Index l = Index dev \<and> NetNs l = curNs v then d else NetNs l) (links v)"
    and "map Up (links v3) =
          map (\<lambda>l. if Index l = Index dev \<and> NetNs l = curNs v then False else Up l) (links v)"
    unfolding l3 l2 l1 by (simp_all add: comp_def)
  then show ?thesis using Inr c2 ok by simp
qed

text \<open>The same through \<open>ns.GetCurrentNS\<close> and \<open>containerNs.Do\<close>.\<close>

lemma moveLinkOut_calls:
  "\<exists>xs. calls (snd (moveLinkOut env containerNs ifName w)) = calls w @ xs"
proof (cases "fault env (calls w) CGetCurrentNS")
  case (Some e)
  then show ?thesis by (simp add: moveLinkOut_def ns_GetCurrentNS_def)
next
  case None
  let ?w1 = "logged CGetCurrentNS w"
  show ?thesis
  proof (cases "fault env (calls ?w1) (CDo containerNs)")
    case (Some e)
    then show ?thesis using None by (simp add: moveLinkOut_def ns_GetCurrentNS_def ns_Do_def)
  next
    case n: None
    let ?v = "(logged (CDo containerNs) ?w1)\<lparr>curNs := containerNs\<rparr>"
    from moveLinkOut_func_calls [of env ifName "curNs w" ?v] obtain xs where
      "calls (snd (moveLinkOut_func env ifName (curNs w) ?v)) = calls ?v @ xs" by blast
    then show ?thesis using None n
      by (auto simp: moveLinkOut_def ns_GetCurrentNS_def ns_Do_def split: prod.splits)
  qed
qed

lemma moveLinkOut_noalias:
  assumes "netlink_LinkByName ifName (w\<lparr>curNs := containerNs\<rparr>) = Inr dev" and "Alias dev = []"
  shows "\<exists>e w'. moveLinkOut env containerNs ifName w = (Inl e, w') \<and>
           map Name (links w') = map Name (links w) \<and>
           map NetNs (links w') = map NetNs (links w)"
proof (cases "fault env (calls w) CGetCurrentNS")
  case (Some e)
  then show ?thesis by (simp add: moveLinkOut_def ns_GetCurrentNS_def)
next
  case None
  let ?w1 = "logged CGetCurrentNS w"
  show ?thesis
  proof (cases "fault env (calls ?w1) (CDo containerNs)")
    case (Some e)
    then show ?thesis using None by (simp add: moveLinkOut_def ns_GetCurrentNS_def ns_Do_def)
  next
    case n: None
    let ?v = "(logged (CDo containerNs) ?w1)\<lparr>curNs := containerNs\<rparr>"
    have "netlink_LinkByName ifName ?v = Inr dev"
      using assms(1) by (simp add: LinkByName_cong [of ?v "w\<lparr>curNs := containerNs\<rparr>"])
    from moveLinkOut_func_noalias [OF this assms(2), of env "curNs w"] obtain e v' where
      "moveLinkOut_func env ifName (curNs w) ?v = (Inl e, v')"
      "map Name (links v') = map Name (links ?v)" "map NetNs (links v') = map NetNs (links ?v)"
      by blast
    then show ?thesis using None n
      by (simp add: moveLinkOut_def ns_GetCurrentNS_def ns_Do_def)
  qed
qed

lemma moveLinkOut_success:
  assumes "moveLinkOut env containerNs ifName w = (Inr (), w')"
  shows "\<exists>dev. netlink_LinkByName ifName (w\<lparr>curNs := containerNs\<rparr>) = Inr dev \<and>
           dev_valid_name (Alias dev) \<and>
           map Name (links w') =
             map (\<lambda>l. if Index l = Index dev \<and> NetNs l = containerNs then Alias dev else Name l)
               (links w) \<and>
           map NetNs (links w') =
             map (\<lambda>l. if Index l = Index dev \<and> NetNs l = containerNs then curNs w else NetNs l)
               (links w) \<and>
           map Up (links w') =
             map (\<lambda>l. if Index l = Index dev \<and> NetNs l = containerNs then False else Up l)
               (links w)"
proof (cases "fault env (calls w) CGetCurrentNS")
  case (Some e)
  then show ?thesis using assms by (simp add: moveLinkOut_def ns_GetCurrentNS_def)
next
  case None
  let ?w1 = "logged CGetCurrentNS w"
  show ?thesis
  proof (cases "fault env (calls ?w1) (CDo containerNs)")
    case (Some e)
    then show ?thesis using None assms
      by (simp add: moveLinkOut_def ns_GetCurrentNS_def ns_Do_def)
  next
    case n: None
    let ?v = "(logged (CDo containerNs) ?w1)\<lparr>curNs := containerNs\<rparr>"
    obtain r v' where f: "moveLinkOut_func env ifName (curNs w) ?v = (r, v')"
      by (cases "moveLinkOut_func env ifName (curNs w) ?v")
    then have "r = Inr ()" "links w' = links v'" using None n assms
      by (auto simp: moveLinkOut_def ns_GetCurrentNS_def ns_Do_def)
    with moveLinkOut_func_success [of env ifName "curNs w" ?v v'] f obtain dev where
      "netlink_LinkByName ifName ?v = Inr dev" "dev_valid_name (Alias dev)"
      "map Name (links w') =
         map (\<lambda>l. if Index l = Index dev \<and> NetNs l = containerNs then Alias dev else Name l)
           (links w)"
      "map NetNs (links w') =
         map (\<lambda>l. if Index l = Index dev \<and> NetNs l = containerNs then curNs w else NetNs l)
           (links w)"
      "map Up (links w') =
         map (\<lambda>l. if Index l = Index dev \<and> NetNs l = containerNs then False else Up l)
           (links w)"
      by auto
    moreover have "netlink_LinkByName ifName ?v =
        netlink_LinkByName ifName (w\<lparr>curNs := containerNs\<rparr>)"
      by (rule LinkByName_cong) simp_all
    ultimately show ?thesis by auto
  qed
qed

text \<open>
  C9. A detach of a container-side link whose alias is empty returns a failure, and no
  link is renamed or moved by it (the name and the namespace of every link are what they
  were): \<open>moveLinkOut\<close> has no check of its own, it asks for the rename to the alias
  and the kernel refuses the empty name. A detach that succeeds has found a link with a
  non-empty alias, and has set that link down, renamed it to its alias and moved it to
  the namespace of the caller.
\<close>

theorem moveLinkOut_needs_alias:
  "(\<forall>dev. netlink_LinkByName ifName (w\<lparr>curNs := containerNs\<rparr>) = Inr dev \<and> Alias dev = [] \<longrightarrow>
      (\<exists>e w'. moveLinkOut env containerNs ifName w = (Inl e, w') \<and>
               map Name (links w') = map Name (links w) \<and>
               map NetNs (links w') = map NetNs (links w))) \<and>
   (\<forall>w'. moveLinkOut env containerNs ifName w = (Inr (), w') \<longrightarrow>
      (\<exists>dev. netlink_LinkByName ifName (w\<lparr>curNs := containerNs\<rparr>) = Inr dev \<and>
             Alias dev \<noteq> [] \<and>
             map Name (links w') =
               map (\<lambda>l. if Index l = Index dev \<and> NetNs l = containerNs
                         then Alias dev else Name l) (links w) \<and>
             map NetNs (links w') =
               map (\<lambda>l. if Index l = Index dev \<and> NetNs l = containerNs
                         then curNs w else NetNs l) (links w) \<and>
             map Up (links w') =
               map (\<lambda>l. if Index l = Index dev \<and> NetNs l = containerNs
                         then False else Up l) (links w)))"
proof (intro conjI allI impI)
  fix dev
  assume "netlink_LinkByName ifName (w\<lparr>curNs := containerNs\<rparr>) = Inr dev \<and> Alias dev = []"
  then show "\<exists>e w'. moveLinkOut env containerNs ifName w = (Inl e, w') \<and>
               map Name (links w') = map Name (links w) \<and>
               map NetNs (links w') = map NetNs (links w)"
    using moveLinkOut_noalias by blast
next
  fix w'
  assume "moveLinkOut env containerNs ifName w = (Inr (), w')"
  from moveLinkOut_success [OF this] obtain dev where
    d: "netlink_LinkByName ifName (w\<lparr>curNs := containerNs\<rparr>) = Inr dev"
      "dev_valid_name (Alias dev)"
      "map Name (links w') =
         map (\<lambda>l. if Index l = Index dev \<and> NetNs l = containerNs
                   then Alias dev else Name l) (links w)"
      "map NetNs (links w') =
         map (\<lambda>l. if Index l = Index dev \<and> NetNs l = containerNs
                   then curNs w else NetNs l) (links w)"
      "map Up (links w') =
         map (\<lambda>l. if Index l = Index dev \<and> NetNs l = containerNs
                   then False else Up l) (links w)"
    by blast
  have "Alias dev \<noteq> []" using d(2) by (auto simp: dev_valid_name_def)
  then show "\<exists>dev. netlink_LinkByName ifName (w\<lparr>curNs := containerNs\<rparr>) = Inr dev \<and>
             Alias dev \<noteq> [] \<and>
             map Name (links w') =
               map (\<lambda>l. if Index l = Index dev \<and> NetNs l = containerNs
                         then Alias dev else Name l) (links w) \<and>
             map NetNs (links w') =
               map (\<lambda>l. if Index l = Index dev \<and> NetNs l = containerNs
                         then curNs w else NetNs l) (links w) \<and>
             map Up (links w') =
               map (\<lambda>l. if Index l = Index dev \<and> NetNs l = containerNs
                         then False else Up l) (links w)"
    using d by blast
qed

text \<open>
  C9 on the example: the detach of \<open>eth0\<close> without alias fails at the rename and
  leaves the names alone; the detach of \<open>eth0\<close> with alias \<open>eth1\<close> brings \<open>eth1\<close>
  back to the host namespace.
\<close>

theorem moveLinkOut_needs_alias_witness:
  "fst (moveLinkOut (ex_henv (Inr ''10.0.0.2/24'') None) 1 ''eth0'' ex_world_noalias) =
     Inl (FailedRestoreName ''eth0'' [] ''numerical result out of range'') \<and>
   map Name (links (snd (moveLinkOut (ex_henv (Inr ''10.0.0.2/24'') None) 1 ''eth0'' ex_world_noalias))) =
     [''lo'', ''eth0'', ''lo''] \<and>
   fst (moveLinkOut (ex_henv (Inr ''10.0.0.2/24'') None) 1 ''eth0'' ex_world_attached) = Inr () \<and>
   map (\<lambda>l. (Name l, NetNs l))
     (links (snd (moveLinkOut (ex_henv (Inr ''10.0.0.2/24'') None) 1 ''eth0'' ex_world_attached))) =
     [(''lo'', 0), (''eth1'', 0), (''eth2'', 0), (''enp0s25'', 0), (''lo'', 1)]"
proof -
  let ?env = "ex_henv (Inr ''10.0.0.2/24'') None"
  let ?dev = "ex_eth1\<lparr>Name := ''eth0'', Up := True, NetNs := 1\<rparr>"
  have a: "netlink_LinkByName ''eth0'' (ex_world_noalias\<lparr>curNs := 1\<rparr>) = Inr ?dev \<and> Alias ?dev = []"
    by code_simp
  have b: "fst (moveLinkOut ?env 1 ''eth0'' ex_world_noalias) =
     Inl (FailedRestoreName ''eth0'' [] ''numerical result out of range'')"
    by code_simp
  have c: "fst (moveLinkOut ?env 1 ''eth0'' ex_world_attached) = Inr ()"
    by code_simp
  have d: "map (\<lambda>l. (Name l, NetNs l)) (links (snd (moveLinkOut ?env 1 ''eth0'' ex_world_attached))) =
     [(''lo'', 0), (''eth1'', 0), (''eth2'', 0), (''enp0s25'', 0), (''lo'', 1)]"
    by code_simp
  have n: "map Name (links ex_world_noalias) = [''lo'', ''eth0'', ''lo'']"
    by code_simp
  from moveLinkOut_needs_alias
         [where ifName = "''eth0''" and w = ex_world_noalias and containerNs = 1 and env = ?env] a
  obtain e w' where "moveLinkOut ?env 1 ''eth0'' ex_world_noalias = (Inl e, w')"
    "map Name (links w') = map Name (links ex_world_noalias)"
    by blast
  then show ?thesis using b c d n by simp
qed

text \<open>
  C8. A \<open>Del\<close> whose configuration does not load calls nothing. Otherwise the first
  call it makes is \<open>ipam.ExecDel\<close>, before anything of the detach (opening the
  namespace, \<open>moveLinkOut\<close>); and when \<open>ExecDel\<close> returns an error, \<open>Del\<close> returns
  that error at once: nothing else is called and no link is touched.
\<close>

theorem cmdDel_releases_before_detach:
  "(\<forall>e. loadConf env (StdinData args) = Inl e \<longrightarrow> hostdev_cmdDel env args w = (Inl e, w)) \<and>
   (\<forall>cfg. loadConf env (StdinData args) = Inr cfg \<longrightarrow>
      (\<exists>rest. calls (snd (hostdev_cmdDel env args w)) =
                calls w @ CExecDel (IPAM_Type cfg) (StdinData args) # rest) \<and>
      (\<forall>err. ipam_ExecDel env (calls w) (IPAM_Type cfg) (StdinData args) = Some err \<longrightarrow>
         hostdev_cmdDel env args w =
           (Inl (External err), logged (CExecDel (IPAM_Type cfg) (StdinData args)) w)))"
proof (intro conjI allI impI)
  fix e assume "loadConf env (StdinData args) = Inl e"
  then show "hostdev_cmdDel env args w = (Inl e, w)" by (simp add: hostdev_cmdDel_def)
next
  fix cfg assume c: "loadConf env (StdinData args) = Inr cfg"
  let ?c = "CExecDel (IPAM_Type cfg) (StdinData args)"
  show "\<exists>rest. calls (snd (hostdev_cmdDel env args w)) = calls w @ ?c # rest"
  proof (cases "ipam_ExecDel env (calls w) (IPAM_Type cfg) (StdinData args)")
    case (Some err)
    then show ?thesis using c by (simp add: hostdev_cmdDel_def)
  next
    case None
    obtain r w2 where g: "ns_GetNS env (Netns args) (logged ?c w) = (r, w2)"
      by (cases "ns_GetNS env (Netns args) (logged ?c w)")
    then have w2: "calls w2 = calls w @ [?c, CGetNS (Netns args)]"
      by (auto simp: ns_GetNS_def split: option.splits)
    show ?thesis
    proof (cases r)
      case (Inl e)
      then show ?thesis using c None g w2 by (simp add: hostdev_cmdDel_def)
    next
      case (Inr containerNs)
      from moveLinkOut_calls [of env containerNs "IfName args" w2] obtain xs where
        "calls (snd (moveLinkOut env containerNs (IfName args) w2)) = calls w2 @ xs" by blast
      then show ?thesis using c None g w2 Inr by (simp add: hostdev_cmdDel_def)
    qed
  qed
next
  fix cfg err
  assume "loadConf env (StdinData args) = Inr cfg"
    "ipam_ExecDel env (calls w) (IPAM_Type cfg) (StdinData args) = Some err"
  then show "hostdev_cmdDel env args w =
           (Inl (External err), logged (CExecDel (IPAM_Type cfg) (StdinData args)) w)"
    by (simp add: hostdev_cmdDel_def)
qed

text \<open>
  C8 on the example: a \<open>Del\<close> whose release fails leaves the attached host as it is;
  a \<open>Del\<close> whose release succeeds goes on to the detach.
\<close>

theorem cmdDel_releases_before_detach_witness:
  "hostdev_cmdDel (ex_henv (Inr ''10.0.0.2/24'') (Some ''lease not found'')) ex_args ex_world_attached =
     (Inl (External ''lease not found''), logged (CExecDel ''vdn-dhcp'' ''{}'') ex_world_attached) \<and>
   calls (snd (hostdev_cmdDel (ex_henv (Inr ''10.0.0.2/24'') None) ex_args ex_world_attached)) =
     [CExecDel ''vdn-dhcp'' ''{}'', CGetNS ''/var/run/netns/c1'', CGetCurrentNS, CDo 1,
      CLinkSetDown 2, CLinkSetName 2 ''eth1'', CLinkSetNsFd 2 0]"
proof -
  let ?env = "ex_henv (Inr ''10.0.0.2/24'') (Some ''lease not found'')"
  have l: "loadConf ?env (StdinData ex_args) = Inr ex_hcfg"
    by (simp add: loadConf_def ex_henv_def ex_hcfg_def)
  have d: "ipam_ExecDel ?env (calls ex_world_attached) (IPAM_Type ex_hcfg) (StdinData ex_args) =
             Some ''lease not found''"
    by (simp add: ex_henv_def)
  have t: "IPAM_Type ex_hcfg = ''vdn-dhcp''" "StdinData ex_args = ''{}''"
    by (simp_all add: ex_hcfg_def ex_args_def)
  have s: "calls (snd (hostdev_cmdDel (ex_henv (Inr ''10.0.0.2/24'') None) ex_args ex_world_attached)) =
     [CExecDel ''vdn-dhcp'' ''{}'', CGetNS ''/var/run/netns/c1'', CGetCurrentNS, CDo 1,
      CLinkSetDown 2, CLinkSetName 2 ''eth1'', CLinkSetNsFd 2 0]"
    by code_simp
  from cmdDel_releases_before_detach
         [where env = ?env and args = ex_args and w = ex_world_attached] l d
  have "hostdev_cmdDel ?env ex_args ex_world_attached =
           (Inl (External ''lease not found''),
            logged (CExecDel (IPAM_Type ex_hcfg) (StdinData ex_args)) ex_world_attached)"
    by blast
  then show ?thesis using s t by simp
qed

text \<open>
  C1. The claim is that an \<open>Add\<close> that fails after \<open>moveLinkIn\<close> has succeeded leaves
  the link back in the host namespace under its original name. The comment of the
  deferred function says so (\<open>Move out link if err to avoid link hold in this ns\<close>),
  but the function calls \<open>moveLinkOut\<close> inside \<open>containerNs.Do\<close>: there the current
  namespace, to which \<open>moveLinkOut\<close> moves the link, is the container's. On the example
  host, with an IPAM delegate that fails, the link gets its name \<open>eth1\<close> back and stays
  in namespace 1 (the last call is \<open>LinkSetNsFd\<close> to namespace 1). And when the
  delegate returns no address, \<open>return errors.New(...)\<close> leaves \<open>err\<close> \<open>nil\<close>: nothing
  is undone, the link stays in namespace 1 as \<open>eth0\<close>. In \<open>Del\<close>, \<open>moveLinkOut\<close> is
  called outside \<open>Do\<close> and does move the link to the host.
\<close>

theorem cmdAdd_rollback_leaves_link_in_container:
  "fst (hostdev_cmdAdd (ex_henv (Inl ''no dhcp server'') None) ex_args ex_world) =
     Inl (External ''no dhcp server'') \<and>
   map (\<lambda>l. (Index l, Name l, NetNs l))
     (links (snd (hostdev_cmdAdd (ex_henv (Inl ''no dhcp server'') None) ex_args ex_world))) =
     [(1, ''lo'', 0), (2, ''eth1'', 1), (3, ''eth2'', 0), (4, ''enp0s25'', 0), (1, ''lo'', 1)] \<and>
   calls (snd (hostdev_cmdAdd (ex_henv (Inl ''no dhcp server'') None) ex_args ex_world)) =
     [CGetNS ''/var/run/netns/c1'', CLinkSetDown 2, CLinkSetNsFd 2 1, CDo 1,
      CLinkSetAlias 2 ''eth1'', CLinkSetName 2 ''eth0'', CExecAdd ''vdn-dhcp'' ''{}'',
      CDo 1, CGetCurrentNS, CDo 1, CLinkSetDown 2, CLinkSetName 2 ''eth1'', CLinkSetNsFd 2 1] \<and>
   fst (hostdev_cmdAdd (ex_henv (Inr ''empty'') None) ex_args ex_world) = Inl MissingIPConfig \<and>
   map (\<lambda>l. (Index l, Name l, NetNs l))
     (links (snd (hostdev_cmdAdd (ex_henv (Inr ''empty'') None) ex_args ex_world))) =
     [(1, ''lo'', 0), (2, ''eth0'', 1), (3, ''eth2'', 0), (4, ''enp0s25'', 0), (1, ''lo'', 1)] \<and>
   calls (snd (hostdev_cmdAdd (ex_henv (Inr ''empty'') None) ex_args ex_world)) =
     [CGetNS ''/var/run/netns/c1'', CLinkSetDown 2, CLinkSetNsFd 2 1, CDo 1,
      CLinkSetAlias 2 ''eth1'', CLinkSetName 2 ''eth0'', CExecAdd ''vdn-dhcp'' ''{}'']"
  by code_simp

end
